theory Spec2Isabelle
  imports Complex_Main "HOL-Library.Log_Nat"
begin

text \<open>
  A model of the sprite animation clip of the engine,
  \<open>src/framework/components/sprite/sprite-animation-clip.js\<close>: the playback state machine
  (\<open>_update\<close>, \<open>play\<close>, \<open>pause\<close>, \<open>resume\<close>, \<open>stop\<close>), the properties \<open>duration\<close>, \<open>frame\<close>,
  \<open>time\<close>, \<open>sprite\<close> and \<open>spriteAsset\<close>, and the callbacks that bind the sprite asset.  A
  method becomes a function from the state before the call to the state after it.
\<close>

section \<open>JavaScript numbers\<close>

text \<open>
  The clip computes with JavaScript Numbers (IEEE 754 binary64, round to nearest, ties
  to even).  A Number is a finite value, one of the two infinities, or NaN.  Finite
  values are rationals; \<open>Fin 0\<close> is \<open>+0\<close> and \<open>NegZero\<close> is \<open>-0\<close>.  Every arithmetic
  operation computes the exact rational result and rounds it with \<open>round64\<close>, which
  also produces the overflow to an infinity and the underflow to a signed zero.  The
  operations take doubles to doubles; the length of an array is below \<open>2^32\<close> and so a
  double.
\<close>

datatype jsnum = Fin rat | NegZero | PInf | NInf | NaN

fun is_nan :: "jsnum \<Rightarrow> bool" where
  "is_nan NaN = True"
| "is_nan _ = False"

fun is_inf :: "jsnum \<Rightarrow> bool" where
  "is_inf PInf = True"
| "is_inf NInf = True"
| "is_inf _ = False"

fun is_zero :: "jsnum \<Rightarrow> bool" where
  "is_zero (Fin r) = (r = 0)"
| "is_zero NegZero = True"
| "is_zero _ = False"

fun is_finite :: "jsnum \<Rightarrow> bool" where
  "is_finite (Fin r) = True"
| "is_finite NegZero = True"
| "is_finite _ = False"

fun sign_bit :: "jsnum \<Rightarrow> bool" where
  "sign_bit (Fin r) = (r < 0)"
| "sign_bit NegZero = True"
| "sign_bit NInf = True"
| "sign_bit _ = False"

fun rat_of :: "jsnum \<Rightarrow> rat" where
  "rat_of (Fin r) = r"
| "rat_of _ = 0"

definition signed_zero :: "bool \<Rightarrow> jsnum" where
  "signed_zero neg = (if neg then NegZero else Fin 0)"

definition signed_inf :: "bool \<Rightarrow> jsnum" where
  "signed_inf neg = (if neg then NInf else PInf)"

subsection \<open>Rounding to binary64\<close>

text \<open>\<open>ilog2 a\<close> is the binary exponent of a positive rational: \<open>2 powi e \<le> a < 2 powi (e + 1)\<close>.\<close>

definition ilog2 :: "rat \<Rightarrow> int" where
  "ilog2 a = (let (p, q) = quotient_of a; c = bitlen p - bitlen q
              in if 2 powi c \<le> a then c else c - 1)"

definition round_half_even :: "rat \<Rightarrow> int" where
  "round_half_even m =
     (let k = \<lfloor>m\<rfloor>; r = m - of_int k
      in if r < 1 / 2 then k else if 1 / 2 < r then k + 1
         else if even k then k else k + 1)"

text \<open>
  The spacing of the doubles around \<open>a\<close> is \<open>2 powi (e - 52)\<close> for the exponent \<open>e\<close> of
  \<open>a\<close>, and \<open>2 powi (- 1074)\<close> in the subnormal range; a result of \<open>2 powi 1024\<close> or more
  is an infinity.
\<close>

definition round64 :: "rat \<Rightarrow> jsnum" where
  "round64 q =
     (if q = 0 then Fin 0
      else
        let a = \<bar>q\<bar>;
            e = max (ilog2 a) (- 1022);
            u = 2 powi (e - 52);
            r = of_int (round_half_even (a / u)) * u
        in if 2 powi 1024 \<le> r then signed_inf (q < 0)
           else if r = 0 then signed_zero (q < 0)
           else Fin (if q < 0 then - r else r))"

subsection \<open>Operators\<close>

definition jadd :: "jsnum \<Rightarrow> jsnum \<Rightarrow> jsnum" where
  "jadd a b =
     (if is_nan a \<or> is_nan b then NaN
      else if is_inf a then (if is_inf b \<and> a \<noteq> b then NaN else a)
      else if is_inf b then b
      else
        let q = rat_of a + rat_of b
        in if q = 0 then signed_zero (a = NegZero \<and> b = NegZero) else round64 q)"

definition jmul :: "jsnum \<Rightarrow> jsnum \<Rightarrow> jsnum" where
  "jmul a b =
     (if is_nan a \<or> is_nan b then NaN
      else if is_inf a \<or> is_inf b then
        (if is_zero a \<or> is_zero b then NaN else signed_inf (sign_bit a \<noteq> sign_bit b))
      else if is_zero a \<or> is_zero b then signed_zero (sign_bit a \<noteq> sign_bit b)
      else round64 (rat_of a * rat_of b))"

definition jdiv :: "jsnum \<Rightarrow> jsnum \<Rightarrow> jsnum" where
  "jdiv a b =
     (if is_nan a \<or> is_nan b then NaN
      else if is_inf a then (if is_inf b then NaN else signed_inf (sign_bit a \<noteq> sign_bit b))
      else if is_inf b then signed_zero (sign_bit a \<noteq> sign_bit b)
      else if is_zero b then
        (if is_zero a then NaN else signed_inf (sign_bit a \<noteq> sign_bit b))
      else if is_zero a then signed_zero (sign_bit a \<noteq> sign_bit b)
      else round64 (rat_of a / rat_of b))"

text \<open>
  The remainder \<open>a % b\<close> has the sign of the dividend and is exact: the remainder of two
  doubles is a double, so no rounding step follows.
\<close>

definition jmod :: "jsnum \<Rightarrow> jsnum \<Rightarrow> jsnum" where
  "jmod a b =
     (if is_nan a \<or> is_nan b \<or> is_inf a \<or> is_zero b then NaN
      else if is_inf b \<or> is_zero a then a
      else
        let x = \<bar>rat_of a\<bar>; y = \<bar>rat_of b\<bar>;
            r = x - y * of_int \<lfloor>x / y\<rfloor>
        in if r = 0 then signed_zero (sign_bit a)
           else Fin (if sign_bit a then - r else r))"

text \<open>\<open>Math.floor\<close>.\<close>

fun jfloor :: "jsnum \<Rightarrow> jsnum" where
  "jfloor (Fin r) = Fin (of_int \<lfloor>r\<rfloor>)"
| "jfloor x = x"

text \<open>The comparisons \<open><\<close>, \<open>===\<close>, \<open><=\<close>, \<open>>\<close>, \<open>>=\<close>: every comparison with NaN is false,
  and the two zeros are equal.\<close>

definition jlt :: "jsnum \<Rightarrow> jsnum \<Rightarrow> bool" where
  "jlt a b =
     (if is_nan a \<or> is_nan b then False
      else if a = PInf \<or> b = NInf then False
      else if a = NInf \<or> b = PInf then True
      else rat_of a < rat_of b)"

definition jeq :: "jsnum \<Rightarrow> jsnum \<Rightarrow> bool" where
  "jeq a b =
     (if is_nan a \<or> is_nan b then False
      else if is_inf a \<or> is_inf b then a = b
      else rat_of a = rat_of b)"

definition jle :: "jsnum \<Rightarrow> jsnum \<Rightarrow> bool" where
  "jle a b = (jlt a b \<or> jeq a b)"

definition jgt :: "jsnum \<Rightarrow> jsnum \<Rightarrow> bool" where
  "jgt a b = jlt b a"

definition jge :: "jsnum \<Rightarrow> jsnum \<Rightarrow> bool" where
  "jge a b = jle b a"

text \<open>Truthiness of a Number: \<open>+0\<close>, \<open>-0\<close> and NaN are falsy.\<close>

definition truthy :: "jsnum \<Rightarrow> bool" where
  "truthy x = (\<not> is_zero x \<and> \<not> is_nan x)"

text \<open>\<open>Number.MIN_VALUE\<close>, the smallest positive double.\<close>

definition MIN_VALUE :: jsnum where
  "MIN_VALUE = Fin (1 / 2 ^ 1074)"

text \<open>The length of an array as a Number.\<close>

definition jlen :: "'a list \<Rightarrow> jsnum" where
  "jlen xs = Fin (of_nat (length xs))"

text \<open>
  Modelled from the spec: \<open>pc.math.clamp\<close> is not among the sources.  The spec has the
  frame clamped to \<open>[0, frameCount]\<close> and the time to \<open>[0, duration]\<close> by it; the engine's
  function returns \<open>max\<close> when \<open>value >= max\<close>, \<open>min\<close> when \<open>value <= min\<close>, and the value
  otherwise.
\<close>

definition clamp :: "jsnum \<Rightarrow> jsnum \<Rightarrow> jsnum \<Rightarrow> jsnum" where
  "clamp v lo hi = (if jge v hi then hi else if jle v lo then lo else v)"

section \<open>The data of a clip and of its collaborators\<close>

text \<open>
  A sprite resource: its frame keys (only their number matters to the clip) and its
  texture atlas, which is \<open>None\<close> until the atlas asset is resolved.
\<close>

record texture_atlas =
  texture :: "nat option"

record sprite =
  frames :: "string list"
  atlas :: "texture_atlas option"

text \<open>
  The callbacks the clip registers on an asset: \<open>_onSpriteAssetLoad\<close> for \<open>load\<close>,
  \<open>_onSpriteAssetChange\<close> for \<open>change\<close> and \<open>_onSpriteAssetRemove\<close> for \<open>remove\<close> (scope:
  the clip).
\<close>

datatype asset_callback = LoadCallback | ChangeCallback | RemoveCallback

text \<open>
  An asset of the registry: its resource (\<open>None\<close> until loaded), \<open>data.textureAtlasAsset\<close>,
  and the callbacks the clip has registered on it.
\<close>

record asset =
  resource :: "sprite option"
  textureAtlasAsset :: nat
  callbacks :: "asset_callback list"

text \<open>The value a \<open>spriteAsset\<close> holds: \<open>null\<close>, \<open>undefined\<close> or a numeric id; the setter
  also accepts an asset object, of which it takes the id.\<close>

datatype ident = Null | Undefined | Id nat



text \<open>
  The callbacks the clip registers on the asset registry: \<open>_onSpriteAssetAdded\<close> for
  \<open>'add:' + id\<close>, and \<open>_onTextureAtlasLoad\<close>, once, for \<open>'load:' + atlasAssetId\<close>.
\<close>

datatype registry_callback = AddCallback nat | AtlasLoadCallback nat

datatype emitter = OnClip | OnComponent

record mesh_instance =
  texture_emissiveMap :: "nat option"
  texture_opacityMap :: "nat option"

text \<open>
  The state a clip's methods read and write.  The fields \<open>p_frame\<close> ... \<open>p_time\<close> are the
  clip's private \<open>_frame\<close> ... \<open>_time\<close>.  Of the owning component the clip uses \<open>speed\<close>,
  whether \<open>currentClip\<close> is this clip, and \<open>_meshInstance\<close>; \<open>shown\<close> is the list of
  the arguments of the calls of \<open>_showFrame\<close> so far and \<open>fired\<close> the list of the
  events fired so far, on the clip and on the component.  Of the application the clip
  uses the asset registry: \<open>assets\<close> is \<open>assets.get\<close>, \<open>registry_callbacks\<close> the
  callbacks the clip has registered on the registry,
  \<open>load_calls\<close> the assets passed to \<open>assets.load\<close>, and \<open>mesh_callbacks\<close> the sprites on
  which the clip listens to \<open>set:meshes\<close>.
\<close>

record state =
  name :: string
  fps :: jsnum
  loop :: bool
  p_frame :: jsnum
  p_sprite :: "sprite option"
  p_spriteAsset :: ident
  p_playing :: bool
  p_paused :: bool
  p_time :: jsnum
  speed :: jsnum
  currentClip_is_this :: bool
  meshInstance :: "mesh_instance option"
  shown :: "jsnum list"
  fired :: "(emitter \<times> string) list"
  assets :: "nat \<Rightarrow> asset option"
  registry_callbacks :: "registry_callback list"
  load_calls :: "nat list"
  mesh_callbacks :: "sprite list"

subsection \<open>The collaborators\<close>

text \<open>
  Modelled from the spec: the component and the event bus are not among the sources.
  \<open>showFrame\<close> is the renderer callback \<open>_showFrame(frameIndex)\<close>; \<open>fire\<close> on the clip and
  on the component emits a named event.  Both are recorded; no listener of these events
  calls back into the clip.
\<close>

definition showFrame :: "jsnum \<Rightarrow> state \<Rightarrow> state" where
  "showFrame v s = s\<lparr>shown := shown s @ [v]\<rparr>"

definition fire :: "string \<Rightarrow> state \<Rightarrow> state" where
  "fire ev s = s\<lparr>fired := fired s @ [(OnClip, ev)]\<rparr>"

definition component_fire :: "string \<Rightarrow> state \<Rightarrow> state" where
  "component_fire ev s = s\<lparr>fired := fired s @ [(OnComponent, ev)]\<rparr>"



definition registry_on :: "registry_callback \<Rightarrow> state \<Rightarrow> state" where
  "registry_on c s = s\<lparr>registry_callbacks := registry_callbacks s @ [c]\<rparr>"

definition registry_off :: "registry_callback \<Rightarrow> state \<Rightarrow> state" where
  "registry_off c s = s\<lparr>registry_callbacks := filter (\<lambda>x. x \<noteq> c) (registry_callbacks s)\<rparr>"

definition sprite_on_meshes :: "sprite \<Rightarrow> state \<Rightarrow> state" where
  "sprite_on_meshes sp s = s\<lparr>mesh_callbacks := mesh_callbacks s @ [sp]\<rparr>"

definition sprite_off_meshes :: "sprite \<Rightarrow> state \<Rightarrow> state" where
  "sprite_off_meshes sp s = s\<lparr>mesh_callbacks := filter (\<lambda>x. x \<noteq> sp) (mesh_callbacks s)\<rparr>"


section \<open>The clip\<close>

subsection \<open>The properties \<open>duration\<close>, \<open>frame\<close> and \<open>time\<close>\<close>

text \<open>\<open>this.fps || Number.MIN_VALUE\<close>\<close>

definition fps_or_min :: "state \<Rightarrow> jsnum" where
  "fps_or_min s = (if truthy (fps s) then fps s else MIN_VALUE)"

definition duration :: "state \<Rightarrow> jsnum" where
  "duration s =
     (case p_sprite s of
        Some sp \<Rightarrow> jdiv (jlen (frames sp)) (fps_or_min s)
      | None \<Rightarrow> Fin 0)"

text \<open>The setter of \<open>frame\<close>.\<close>

definition set_frame :: "jsnum \<Rightarrow> state \<Rightarrow> state" where
  "set_frame v s =
     (let s1 =
        (case p_sprite s of
           Some sp \<Rightarrow>
             let s' = s\<lparr>p_frame := clamp v (Fin 0) (jlen (frames sp))\<rparr>
             in s'\<lparr>p_time := clamp (jdiv (p_frame s') (fps_or_min s')) (Fin 0) (duration s')\<rparr>
         | None \<Rightarrow> s\<lparr>p_frame := v, p_time := Fin 0\<rparr>)
      in if currentClip_is_this s1 then showFrame v s1 else s1)"

text \<open>The setter of \<open>time\<close>.\<close>

definition set_time :: "jsnum \<Rightarrow> state \<Rightarrow> state" where
  "set_time v s =
     (let s1 = s\<lparr>p_time := v\<rparr>;
          d = duration s1;
          s2 = (if jlt (p_time s1) (Fin 0) then s1\<lparr>p_time := Fin 0\<rparr>
                else if jgt (p_time s1) d then
                  (if loop s1 then s1\<lparr>p_time := jmod (p_time s1) d\<rparr>
                   else s1\<lparr>p_time := d\<rparr>)
                else s1)
      in case p_sprite s2 of
           Some sp \<Rightarrow> set_frame (jfloor (jdiv (jmul (jlen (frames sp)) (p_time s2)) d)) s2
         | None \<Rightarrow> set_frame (Fin 0) s2)"

subsection \<open>Playback\<close>

text \<open>\<open>_update(dt)\<close>, the spec's \<open>advance\<close>.\<close>

definition update :: "jsnum \<Rightarrow> state \<Rightarrow> state" where
  "update dt s =
     (if jeq (fps s) (Fin 0) then s
      else if \<not> p_playing s \<or> p_paused s then s
      else
        let s1 = s\<lparr>p_time := jadd (p_time s) (jmul dt (speed s))\<rparr>;
            d = duration s1;
            ended = jgt (p_time s1) d;
            s2 = (if ended then
                    (if loop s1 then s1\<lparr>p_time := jmod (p_time s1) d\<rparr>
                     else s1\<lparr>p_time := d\<rparr>)
                  else s1);
            frame = (case p_sprite s2 of
                       Some sp \<Rightarrow> jfloor (jdiv (jmul (jlen (frames sp)) (p_time s2)) d)
                     | None \<Rightarrow> Fin 0);
            s3 = (if \<not> jeq frame (p_frame s2) then set_frame frame s2 else s2)
        in if ended then
             (if loop s3 then component_fire ''loop'' (fire ''loop'' s3)
              else component_fire ''end'' (fire ''end'' (s3\<lparr>p_playing := False, p_paused := False\<rparr>)))
           else s3)"

definition play :: "state \<Rightarrow> state" where
  "play s =
     (if p_playing s then s
      else component_fire ''play'' (fire ''play''
             (set_frame (Fin 0) (s\<lparr>p_playing := True, p_paused := False\<rparr>))))"

definition pause :: "state \<Rightarrow> state" where
  "pause s =
     (if \<not> p_playing s \<or> p_paused s then s
      else component_fire ''pause'' (fire ''pause'' (s\<lparr>p_paused := True\<rparr>)))"

definition resume :: "state \<Rightarrow> state" where
  "resume s =
     (if \<not> p_paused s then s
      else component_fire ''resume'' (fire ''resume'' (s\<lparr>p_paused := False\<rparr>)))"

definition stop :: "state \<Rightarrow> state" where
  "stop s =
     (if \<not> p_playing s then s
      else component_fire ''stop'' (fire ''stop''
             (set_frame (Fin 0) (s\<lparr>p_playing := False, p_paused := False, p_time := Fin 0\<rparr>))))"

subsection \<open>Asset binding\<close>

text \<open>
  Modelled from the spec: the mesh instance of the component is not among the sources;
  \<open>deleteParameter\<close> and \<open>setParameter\<close> clear and set its two texture parameters.
\<close>

definition delete_texture_parameters :: "state \<Rightarrow> state" where
  "delete_texture_parameters s =
     s\<lparr>meshInstance := map_option
          (\<lambda>mi. mi\<lparr>texture_emissiveMap := None, texture_opacityMap := None\<rparr>) (meshInstance s)\<rparr>"

definition set_texture_parameters :: "nat \<Rightarrow> state \<Rightarrow> state" where
  "set_texture_parameters t s =
     s\<lparr>meshInstance := map_option
          (\<lambda>mi. mi\<lparr>texture_emissiveMap := Some t, texture_opacityMap := Some t\<rparr>) (meshInstance s)\<rparr>"

text \<open>The setter of \<open>sprite\<close>.\<close>

definition set_sprite :: "sprite option \<Rightarrow> state \<Rightarrow> state" where
  "set_sprite v s =
     (let s1 = (case p_sprite s of Some old \<Rightarrow> sprite_off_meshes old s | None \<Rightarrow> s);
          s2 = s1\<lparr>p_sprite := v\<rparr>;
          s3 = (case p_sprite s2 of Some new \<Rightarrow> sprite_on_meshes new s2 | None \<Rightarrow> s2)
      in if currentClip_is_this s3 then
           (case v of
              None \<Rightarrow> delete_texture_parameters s3
            | Some sp \<Rightarrow>
                (case atlas sp of
                   None \<Rightarrow> delete_texture_parameters s3
                 | Some a \<Rightarrow>
                     let s4 = (case texture a of
                                 Some t \<Rightarrow> set_texture_parameters t s3
                               | None \<Rightarrow> s3)
                     in if truthy (p_time s4) then set_time (p_time s4) s4
                        else set_frame (p_frame s4) s4))
         else s3)"

text \<open>
  The methods below receive an asset; the model passes its id and reads the asset from
  the registry.  They are only called with an asset of the registry: by the setter after
  \<open>assets.get\<close> found it, and by the events of the asset itself.
\<close>

definition onSpriteAssetLoad :: "nat \<Rightarrow> state \<Rightarrow> state" where
  "onSpriteAssetLoad i s =
     (case assets s i of
        None \<Rightarrow> s
      | Some a \<Rightarrow>
          (case resource a of
             None \<Rightarrow> set_sprite None s
           | Some sp \<Rightarrow>
               (case atlas sp of
                  None \<Rightarrow>
                    registry_on (AtlasLoadCallback (textureAtlasAsset a))
                      (registry_off (AtlasLoadCallback (textureAtlasAsset a)) s)
                | Some _ \<Rightarrow> set_sprite (Some sp) s)))"

definition onSpriteAssetChange :: "nat \<Rightarrow> state \<Rightarrow> state" where
  "onSpriteAssetChange i s = onSpriteAssetLoad i s"

definition onSpriteAssetRemove :: "nat \<Rightarrow> state \<Rightarrow> state" where
  "onSpriteAssetRemove i s = s"

definition onSpriteMeshesChange :: "state \<Rightarrow> state" where
  "onSpriteMeshesChange s = (if currentClip_is_this s then showFrame (p_frame s) s else s)"






subsection \<open>The events of the asset registry\<close>



section \<open>Example clips\<close>

text \<open>A component with one clip, current and stopped at time 0: a looping clip of four
  frames at 2 frames per second, played at speed 1; no asset is registered.\<close>

definition four_frames :: sprite where
  "four_frames = \<lparr>frames = [''f0'', ''f1'', ''f2'', ''f3''], atlas = None\<rparr>"

definition clip4 :: state where
  "clip4 =
     \<lparr>name = ''walk'', fps = Fin 2, loop = True, p_frame = Fin 0,
      p_sprite = Some four_frames, p_spriteAsset = Null, p_playing = False,
      p_paused = False, p_time = Fin 0, speed = Fin 1, currentClip_is_this = True,
      meshInstance = None, shown = [], fired = [], assets = (\<lambda>i. None),
      registry_callbacks = [], load_calls = [], mesh_callbacks = [four_frames]\<rparr>"

text \<open>The clip after \<open>play()\<close>; after \<open>play()\<close>, an advance by 1.5 s and \<open>pause()\<close>.\<close>

definition playing4 :: state where
  "playing4 = play clip4"

definition paused4 :: state where
  "paused4 = pause (update (Fin (3 / 2)) (play clip4))"

text \<open>The clip with \<open>fps = 0\<close>; the clip after its sprite was unbound, stopped and playing.\<close>

definition zero_fps4 :: state where
  "zero_fps4 = clip4\<lparr>fps := Fin 0\<rparr>"

definition unbound4 :: state where
  "unbound4 = set_sprite None clip4"

definition unbound_playing4 :: state where
  "unbound_playing4 = play (set_sprite None clip4)"

text \<open>A clip that plays once: four frames at 4 frames per second, so one second long,
  playing from time 0.  \<open>dt_1_2\<close> is the double \<open>1.2\<close>.\<close>

definition once4 :: state where
  "once4 = play (clip4\<lparr>fps := Fin 4, loop := False\<rparr>)"

definition dt_1_2 :: jsnum where
  "dt_1_2 = Fin (5404319552844595 / 4503599627370496)"

text \<open>The clip at 5 frames per second: neither \<open>3 / 5\<close> nor \<open>4 / 5\<close> is a double.\<close>

definition five_fps4 :: state where
  "five_fps4 = clip4\<lparr>fps := Fin 5\<rparr>"



definition loaded_frames :: sprite where
  "loaded_frames = \<lparr>frames = [''g0'', ''g1''], atlas = Some \<lparr>texture = Some 7\<rparr>\<rparr>"

section \<open>Rounding: the exponent and the exactly representable values\<close>

lemma powi_bounds_of_int:
  assumes "2 ^ nat (b - 1) \<le> (p::int)" "p < 2 ^ nat b" "1 \<le> b"
  shows "(2::rat) powi (b - 1) \<le> of_int p \<and> of_int p < (2::rat) powi b"
proof -
  have "(of_int (2 ^ nat (b - 1)) :: rat) \<le> of_int p"
    using assms(1) by (simp only: of_int_le_iff)
  moreover have "(of_int p :: rat) < of_int (2 ^ nat b)"
    using assms(2) by (simp only: of_int_less_iff)
  ultimately show ?thesis
    using assms(3) by (simp add: power_int_nonneg_exp)
qed

lemma ilog2_bounds:
  assumes "0 < a"
  shows "2 powi (ilog2 a) \<le> a \<and> a < 2 powi (ilog2 a + 1)"
proof -
  obtain p q where pq: "quotient_of a = (p, q)" by (cases "quotient_of a")
  have q0: "0 < q" using pq quotient_of_denom_pos by blast
  have a_eq: "a = of_int p / of_int q" using pq quotient_of_div by blast
  have p0: "0 < p" using assms q0 a_eq
    by (simp add: zero_less_divide_iff)
  define bp where "bp = bitlen p"
  define bq where "bq = bitlen q"
  have bp1: "1 \<le> bp" using p0 by (simp add: bp_def bitlen_alt_def)
  have bq1: "1 \<le> bq" using q0 by (simp add: bq_def bitlen_alt_def)
  have pr: "(2::rat) powi (bp - 1) \<le> of_int p \<and> of_int p < (2::rat) powi bp"
    using bitlen_bounds[OF p0] bp1 unfolding bp_def by (intro powi_bounds_of_int) auto
  have qr: "(2::rat) powi (bq - 1) \<le> of_int q \<and> of_int q < (2::rat) powi bq"
    using bitlen_bounds[OF q0] bq1 unfolding bq_def by (intro powi_bounds_of_int) auto
  have qpos: "(0::rat) < of_int q" using q0 by simp
  have lo: "(2::rat) powi (bp - bq - 1) < a"
  proof -
    have "(2::rat) powi (bp - bq - 1) * of_int q < 2 powi (bp - bq - 1) * 2 powi bq"
      using qr by (intro mult_strict_left_mono) auto
    also have "\<dots> = 2 powi (bp - 1)"
      by (simp add: power_int_add[symmetric])
    also have "\<dots> \<le> of_int p" using pr by simp
    finally show ?thesis using qpos by (simp add: a_eq pos_less_divide_eq)
  qed
  have hi: "a < (2::rat) powi (bp - bq + 1)"
  proof -
    have "of_int p < (2::rat) powi bp" using pr by simp
    also have "\<dots> = 2 powi (bp - bq + 1) * 2 powi (bq - 1)"
      by (simp add: power_int_add[symmetric])
    also have "\<dots> \<le> 2 powi (bp - bq + 1) * of_int q"
      using qr by (intro mult_left_mono) auto
    finally show ?thesis using qpos by (simp add: a_eq pos_divide_less_eq)
  qed
  show ?thesis
  proof (cases "2 powi (bp - bq) \<le> a")
    case True
    then have "ilog2 a = bp - bq" by (simp add: ilog2_def pq bp_def bq_def)
    then show ?thesis using True hi by simp
  next
    case False
    then have "ilog2 a = bp - bq - 1" by (simp add: ilog2_def pq bp_def bq_def)
    then show ?thesis using False lo by simp
  qed
qed

lemma powi2_less_D: "(2::rat) powi m < 2 powi n \<Longrightarrow> m < n"
  using power_int_increasing[of n m "2::rat"] by (cases "m < n") auto

lemma ilog2_unique:
  assumes "0 < a" "2 powi e \<le> a" "a < 2 powi (e + 1)"
  shows "ilog2 a = e"
proof -
  have b: "2 powi (ilog2 a) \<le> a" "a < 2 powi (ilog2 a + 1)"
    using ilog2_bounds[OF assms(1)] by simp_all
  have "(2::rat) powi e < 2 powi (ilog2 a + 1)" using assms(2) b(2) by simp
  then have 1: "e < ilog2 a + 1" by (rule powi2_less_D)
  have "(2::rat) powi (ilog2 a) < 2 powi (e + 1)" using assms(3) b(1) by simp
  then have 2: "ilog2 a < e + 1" by (rule powi2_less_D)
  show ?thesis using 1 2 by simp
qed

lemma round_half_even_of_int: "round_half_even (of_int k) = k"
  by (simp add: round_half_even_def)


lemma round64_exact:
  assumes "q = of_int m * 2 powi x" "m \<noteq> 0" "\<bar>m\<bar> < 2 ^ 53" "- 1074 \<le> x"
    "\<bar>q\<bar> < 2 powi 1024"
  shows "round64 q = Fin q"
proof -
  define a where "a = \<bar>q\<bar>"
  have a_eq: "a = of_int \<bar>m\<bar> * 2 powi x"
    by (simp add: a_def assms(1) abs_mult)
  have a0: "0 < a" using assms(2) by (simp add: a_eq)
  have q0: "q \<noteq> 0" using a0 by (auto simp: a_def)
  define e where "e = max (ilog2 a) (- 1022)"
  have "2 powi (ilog2 a) \<le> a" using ilog2_bounds[OF a0] by simp
  also have "a < 2 ^ 53 * 2 powi x"
  proof -
    have "(of_int \<bar>m\<bar> :: rat) < of_int (2 ^ 53)" using assms(3) by (simp only: of_int_less_iff)
    then show ?thesis by (simp add: a_eq)
  qed
  also have "\<dots> = 2 powi (x + 53)" by (simp add: power_int_add)
  finally have "ilog2 a < x + 53" by (rule powi2_less_D)
  then have ex: "e \<le> x + 52" using assms(4) by (simp add: e_def)
  define n where "n = nat (x + 52 - e)"
  have pw: "(2::rat) powi x = 2 ^ n * 2 powi (e - 52)"
  proof -
    have "(2::rat) ^ n = 2 powi (x + 52 - e)" using ex by (simp add: n_def power_int_nonneg_exp)
    then show ?thesis by (simp add: power_int_add[symmetric])
  qed
  have "a / 2 powi (e - 52) = of_int (\<bar>m\<bar> * 2 ^ n)"
    by (simp add: a_eq pw)
  then have r: "of_int (round_half_even (a / 2 powi (e - 52))) * 2 powi (e - 52) = a"
    by (simp only: round_half_even_of_int) (simp add: a_eq pw)
  show ?thesis
    using q0 a0 assms(5) r
    by (simp add: round64_def Let_def a_def[symmetric] e_def[symmetric] signed_inf_def signed_zero_def)
      (auto simp: a_def)
qed

lemma round64_dyadic:
  assumes "q \<noteq> 0" "q * 2 ^ k \<in> \<int>" "\<bar>q\<bar> * 2 ^ k < 2 ^ 53" "k \<le> 1074"
  shows "round64 q = Fin q"
proof -
  obtain m where m: "q * 2 ^ k = of_int m" using assms(2) by (auto elim: Ints_cases)
  have q_eq: "q = of_int m * 2 powi (- int k)"
    using m by (simp add: power_int_minus field_simps)
  have "\<bar>of_int m :: rat\<bar> < of_int (2 ^ 53)"
    using assms(3) m by (simp add: abs_mult flip: m)
  then have mb: "\<bar>m\<bar> < 2 ^ 53" by (simp only: of_int_abs[symmetric] of_int_less_iff)
  have m0: "m \<noteq> 0" using assms(1) m by auto
  have "\<bar>q\<bar> \<le> \<bar>q\<bar> * 2 ^ k" by (simp add: mult_le_cancel_left1)
  also have "\<dots> < 2 ^ 53" by (rule assms(3))
  also have "\<dots> \<le> (2::rat) powi 1024" by simp
  finally have "\<bar>q\<bar> < 2 powi 1024" .
  then show ?thesis
    using round64_exact[OF q_eq m0 mb] assms(4) by simp
qed

lemmas round64_small = round64_dyadic[where k = 20, simplified]

lemma round_half_even_ge_floor: "\<lfloor>m\<rfloor> \<le> round_half_even m"
  by (simp add: round_half_even_def Let_def)

lemma round_half_even_le_floor: "round_half_even m \<le> \<lfloor>m\<rfloor> + 1"
  by (simp add: round_half_even_def Let_def)

lemma round64_overflow:
  assumes "2 powi 1024 \<le> \<bar>q\<bar>"
  shows "round64 q = signed_inf (q < 0)"
proof -
  define a where "a = \<bar>q\<bar>"
  have a0: "0 < a"
  proof -
    have "(0::rat) < 2 powi 1024" by simp
    then show ?thesis using assms unfolding a_def by linarith
  qed
  have q0: "q \<noteq> 0" using a0 by (auto simp: a_def)
  define e where "e = max (ilog2 a) (- 1022)"
  have "(2::rat) powi 1024 \<le> a" using assms by (simp add: a_def)
  also have "a < 2 powi (ilog2 a + 1)" using ilog2_bounds[OF a0] by simp
  finally have "1024 < ilog2 a + 1" by (rule powi2_less_D)
  then have e_eq: "e = ilog2 a" and e_ge: "1024 \<le> e" by (simp_all add: e_def)
  define u where "u = (2::rat) powi (e - 52)"
  have u0: "0 < u" by (simp add: u_def)
  have pe: "(2::rat) powi e = 2 ^ 52 * u"
    unfolding u_def by (simp add: power_int_diff)
  have "2 powi e \<le> a" using ilog2_bounds[OF a0] by (simp add: e_eq)
  then have "(2::rat) ^ 52 \<le> a / u" using u0 by (simp add: pe pos_le_divide_eq)
  then have "rat_of_int (2 ^ 52) \<le> a / u" by simp
  then have "2 ^ 52 \<le> \<lfloor>a / u\<rfloor>" by (simp only: le_floor_iff)
  then have "2 ^ 52 \<le> round_half_even (a / u)"
    using round_half_even_ge_floor[of "a / u"] by linarith
  then have "rat_of_int (2 ^ 52) \<le> rat_of_int (round_half_even (a / u))"
    by (simp only: of_int_le_iff)
  then have "2 ^ 52 * u \<le> rat_of_int (round_half_even (a / u)) * u"
    using u0 by simp
  moreover have "(2::rat) powi 1024 \<le> 2 powi e"
    using e_ge by (intro power_int_increasing) auto
  ultimately have "2 powi 1024 \<le> rat_of_int (round_half_even (a / u)) * u"
    using pe by linarith
  then show ?thesis
    using q0 by (simp add: round64_def Let_def a_def[symmetric] e_def[symmetric] u_def[symmetric])
qed

section \<open>Evaluation on finite numbers and on the example clips\<close>

lemma jlt_Fin: "jlt (Fin a) (Fin b) = (a < b)" by (simp add: jlt_def)
lemma jeq_Fin: "jeq (Fin a) (Fin b) = (a = b)" by (simp add: jeq_def)
lemma jle_Fin: "jle (Fin a) (Fin b) = (a \<le> b)" by (auto simp: jle_def jlt_def jeq_def)
lemma jgt_Fin: "jgt (Fin a) (Fin b) = (b < a)" by (simp add: jgt_def jlt_def)
lemma jge_Fin: "jge (Fin a) (Fin b) = (b \<le> a)" by (auto simp: jge_def jle_def jlt_def jeq_def)

lemma jadd_Fin: "jadd (Fin a) (Fin b) = (if a + b = 0 then Fin 0 else round64 (a + b))"
  by (simp add: jadd_def signed_zero_def)

lemma jmul_Fin:
  "jmul (Fin a) (Fin b) =
     (if a = 0 \<or> b = 0 then signed_zero ((a < 0) \<noteq> (b < 0)) else round64 (a * b))"
  by (simp add: jmul_def)

lemma jdiv_Fin:
  "jdiv (Fin a) (Fin b) =
     (if b = 0 then (if a = 0 then NaN else signed_inf ((a < 0) \<noteq> (b < 0)))
      else if a = 0 then signed_zero ((a < 0) \<noteq> (b < 0)) else round64 (a / b))"
  by (simp add: jdiv_def)

lemma jmod_Fin:
  "jmod (Fin a) (Fin b) =
     (if b = 0 then NaN else if a = 0 then Fin a
      else if \<bar>a\<bar> - \<bar>b\<bar> * of_int \<lfloor>\<bar>a\<bar> / \<bar>b\<bar>\<rfloor> = 0 then signed_zero (a < 0)
      else Fin (if a < 0 then - (\<bar>a\<bar> - \<bar>b\<bar> * of_int \<lfloor>\<bar>a\<bar> / \<bar>b\<bar>\<rfloor>)
                else \<bar>a\<bar> - \<bar>b\<bar> * of_int \<lfloor>\<bar>a\<bar> / \<bar>b\<bar>\<rfloor>))"
  by (simp add: jmod_def Let_def)

lemma clamp_Fin:
  "clamp (Fin v) (Fin lo) (Fin hi) = (if hi \<le> v then Fin hi else if v \<le> lo then Fin lo else Fin v)"
  by (simp add: clamp_def jge_Fin jle_Fin)

lemma floor_rat_divide_numeral:
  "\<lfloor>(numeral a :: rat) / numeral b\<rfloor> = numeral a div numeral b"
  by (metis floor_divide_of_int_eq of_int_numeral)

lemma floor_rat_one_divide_numeral:
  "\<lfloor>(1 :: rat) / numeral b\<rfloor> = 1 div numeral b"
  by (metis floor_divide_of_int_eq of_int_1 of_int_numeral)

lemma floor_rat_minus_divide_numeral:
  "\<lfloor>- ((numeral a :: rat) / numeral b)\<rfloor> = - numeral a div numeral b"
  by (metis divide_minus_left floor_divide_of_int_eq of_int_neg_numeral of_int_numeral)

lemmas fin_simps = jlt_Fin jeq_Fin jle_Fin jgt_Fin jge_Fin jadd_Fin jmul_Fin jdiv_Fin jmod_Fin
  clamp_Fin signed_zero_def signed_inf_def round64_small
  floor_rat_divide_numeral floor_rat_one_divide_numeral floor_rat_minus_divide_numeral

lemmas clip_defs = update_def set_frame_def set_time_def duration_def fps_or_min_def play_def
  pause_def resume_def stop_def fire_def component_fire_def showFrame_def truthy_def jlen_def
  set_sprite_def sprite_off_meshes_def sprite_on_meshes_def delete_texture_parameters_def

lemmas example_defs = clip4_def four_frames_def playing4_def paused4_def zero_fps4_def
  unbound4_def unbound_playing4_def once4_def dt_1_2_def


lemma playing4_eq:
  "playing4 = clip4\<lparr>p_playing := True, shown := [Fin 0],
      fired := [(OnClip, ''play''), (OnComponent, ''play'')]\<rparr>"
  by (simp add: clip_defs example_defs fin_simps Let_def)

lemma paused4_eq:
  "paused4 = clip4\<lparr>p_playing := True, p_paused := True, p_time := Fin (3 / 2),
      p_frame := Fin 3, shown := [Fin 0, Fin 3],
      fired := [(OnClip, ''play''), (OnComponent, ''play''),
                (OnClip, ''pause''), (OnComponent, ''pause'')]\<rparr>"
  by (simp add: clip_defs example_defs fin_simps Let_def)

lemma unbound4_eq:
  "unbound4 = clip4\<lparr>p_sprite := None, mesh_callbacks := []\<rparr>"
  by (simp add: clip_defs example_defs fin_simps Let_def)

lemma unbound_playing4_eq:
  "unbound_playing4 = clip4\<lparr>p_sprite := None, mesh_callbacks := [], p_playing := True,
      shown := [Fin 0], fired := [(OnClip, ''play''), (OnComponent, ''play'')]\<rparr>"
  by (simp add: clip_defs example_defs fin_simps Let_def)

lemma once4_eq:
  "once4 = clip4\<lparr>fps := Fin 4, loop := False, p_playing := True, shown := [Fin 0],
      fired := [(OnClip, ''play''), (OnComponent, ''play'')]\<rparr>"
  by (simp add: clip_defs example_defs fin_simps Let_def)

lemma dt_1_2_rounds: "round64 (6 / 5) = dt_1_2"
proof -
  have "ilog2 (6 / 5) = 0" by (rule ilog2_unique) simp_all
  then show ?thesis
    by (simp add: round64_def Let_def round_half_even_def dt_1_2_def power_int_minus
        floor_rat_divide_numeral)
qed


lemmas eval_simps = playing4_eq paused4_eq unbound4_eq unbound_playing4_eq once4_eq
  zero_fps4_def dt_1_2_def clip4_def four_frames_def clip_defs fin_simps Let_def
  round64_dyadic[where k = 52, simplified]

lemma jdiv_jlen_MIN_VALUE:
  "jdiv (jlen xs) MIN_VALUE = (if xs = [] then Fin 0 else PInf)"
proof (cases "xs = []")
  case True
  then show ?thesis by (simp add: jlen_def MIN_VALUE_def jdiv_Fin signed_zero_def)
next
  case False
  then have "1 \<le> length xs" by (cases xs) simp_all
  then have "(1::rat) \<le> of_nat (length xs)" by simp
  then have "(2::rat) ^ 1024 \<le> of_nat (length xs) * 2 ^ 1074"
    by (intro order_trans[OF _ mult_mono[of 1 "of_nat (length xs)" "2 ^ 1024" "2 ^ 1074"]]) simp_all
  then have "2 powi 1024 \<le> \<bar>rat_of_nat (length xs) / (1 / 2 ^ 1074)\<bar>"
    by simp
  then show ?thesis
    using False by (simp add: jlen_def MIN_VALUE_def jdiv_Fin round64_overflow signed_inf_def)
qed

section \<open>Signs and ranges of the operators\<close>

lemma round64_not_nan: "round64 q \<noteq> NaN"
  by (simp add: round64_def Let_def signed_inf_def signed_zero_def)

lemma round_half_even_nonneg: "0 \<le> m \<Longrightarrow> 0 \<le> round_half_even m"
  using round_half_even_ge_floor[of m] by (simp add: order_trans[of 0 "\<lfloor>m\<rfloor>"])

lemma round64_nonneg_cases:
  assumes "0 \<le> q"
  shows "round64 q = PInf \<or> (\<exists>r. round64 q = Fin r \<and> 0 \<le> r)"
proof (cases "q = 0")
  case True
  then show ?thesis by (simp add: round64_def)
next
  case False
  define r where "r = rat_of_int (round_half_even (\<bar>q\<bar> / 2 powi (max (ilog2 \<bar>q\<bar>) (- 1022) - 52))) *
          2 powi (max (ilog2 \<bar>q\<bar>) (- 1022) - 52)"
  have r0: "0 \<le> r"
    unfolding r_def by (intro mult_nonneg_nonneg) (simp_all add: round_half_even_nonneg)
  have "round64 q = (if 2 powi 1024 \<le> r then PInf else if r = 0 then Fin 0 else Fin r)"
    using False assms by (simp add: round64_def Let_def signed_inf_def signed_zero_def r_def)
  then show ?thesis using r0 by auto
qed

lemma jle_zero_PInf: "jle (Fin 0) PInf"
  by (simp add: jle_def jlt_def)

lemma jle_zero_NegZero: "jle (Fin 0) NegZero"
  by (simp add: jle_def jlt_def jeq_def)

lemma round64_nonneg: "0 \<le> q \<Longrightarrow> jle (Fin 0) (round64 q)"
  using round64_nonneg_cases[of q] by (auto simp: jle_zero_PInf jle_Fin)

lemma jle_zero_cases:
  "jle (Fin 0) a \<Longrightarrow> a = PInf \<or> a = NegZero \<or> (\<exists>r. a = Fin r \<and> 0 \<le> r)"
  by (cases a) (auto simp: jle_def jlt_def jeq_def)

lemma jmul_nonneg:
  assumes "jle (Fin 0) a" "jle (Fin 0) b"
  shows "jle (Fin 0) (jmul a b) \<or> jmul a b = NaN"
proof -
  have fin: "jle (Fin 0) (jmul (Fin x) (Fin y))" if "0 \<le> x" "0 \<le> y" for x y
    using that round64_nonneg[of "x * y"] by (simp add: jmul_Fin signed_zero_def jle_Fin)
  have nz: "jle (Fin 0) (jmul NegZero (Fin y))" "jle (Fin 0) (jmul (Fin y) NegZero)" for y
    by (simp_all add: jmul_def signed_zero_def jle_zero_NegZero jle_Fin)
  have inf: "jmul PInf (Fin y) = (if y = 0 then NaN else PInf)"
       "jmul (Fin y) PInf = (if y = 0 then NaN else PInf)" if "0 \<le> y" for y
    using that by (simp_all add: jmul_def signed_inf_def)
  have rest: "jmul PInf NegZero = NaN" "jmul NegZero PInf = NaN" "jmul PInf PInf = PInf"
    "jmul NegZero NegZero = Fin 0"
    by (simp_all add: jmul_def signed_inf_def signed_zero_def)
  show ?thesis
    using jle_zero_cases[OF assms(1)] jle_zero_cases[OF assms(2)] fin nz inf rest
    by (auto simp: jle_zero_PInf jle_Fin)
qed

lemma jadd_nonneg:
  assumes "jle (Fin 0) a" "jle (Fin 0) b"
  shows "jle (Fin 0) (jadd a b)"
proof -
  have fin: "jle (Fin 0) (jadd (Fin x) (Fin y))" if "0 \<le> x" "0 \<le> y" for x y
    using that round64_nonneg[of "x + y"] by (simp add: jadd_Fin jle_Fin)
  have nz: "jle (Fin 0) (jadd NegZero (Fin y))" "jle (Fin 0) (jadd (Fin y) NegZero)" if "0 \<le> y" for y
    using that round64_nonneg[of y] by (simp_all add: jadd_def signed_zero_def jle_Fin)
  have inf: "jadd PInf (Fin y) = PInf" "jadd (Fin y) PInf = PInf" for y
    by (simp_all add: jadd_def)
  have rest: "jadd PInf NegZero = PInf" "jadd NegZero PInf = PInf" "jadd PInf PInf = PInf"
    "jadd NegZero NegZero = NegZero"
    by (simp_all add: jadd_def signed_zero_def)
  show ?thesis
    using jle_zero_cases[OF assms(1)] jle_zero_cases[OF assms(2)] fin nz inf rest
    by (auto simp: jle_zero_PInf jle_zero_NegZero)
qed

lemma jmod_range:
  assumes "0 < d" "d < r"
  shows "\<exists>r'. jmod (Fin r) (Fin d) = Fin r' \<and> 0 \<le> r' \<and> r' < d"
proof -
  define k where "k = \<lfloor>r / d\<rfloor>"
  have r0: "0 < r" using assms by simp
  have "rat_of_int k \<le> r / d" "r / d < rat_of_int k + 1"
    unfolding k_def by linarith+
  then have b: "d * rat_of_int k \<le> r" "r < d * rat_of_int k + d"
    using assms(1) by (simp_all add: pos_le_divide_eq pos_divide_less_eq mult.commute distrib_left)
  have "jmod (Fin r) (Fin d) = (if r - d * rat_of_int k = 0 then Fin 0 else Fin (r - d * rat_of_int k))"
    using assms r0 by (simp add: jmod_def Let_def signed_zero_def k_def[symmetric] abs_of_pos)
  then show ?thesis
    using b by auto
qed

section \<open>What the setters and events preserve\<close>

lemma is_nan_iff: "is_nan x \<longleftrightarrow> x = NaN"
  by (cases x) simp_all

lemma fps_or_min_proper: "\<not> is_nan (fps_or_min s) \<and> \<not> is_zero (fps_or_min s)"
  by (simp add: fps_or_min_def truthy_def MIN_VALUE_def)

lemma jdiv_not_nan:
  assumes "is_finite a" "\<not> is_nan b" "\<not> is_zero b"
  shows "\<not> is_nan (jdiv a b)"
  using assms round64_not_nan[of "rat_of a / rat_of b"]
  by (cases a; cases b) (auto simp: jdiv_def signed_zero_def signed_inf_def is_nan_iff)

lemma jdiv_Fin_pos_not_nan:
  assumes "\<not> is_nan a" "0 < d"
  shows "\<not> is_nan (jdiv a (Fin d))"
  using assms round64_not_nan[of "rat_of a / d"]
  by (cases a) (auto simp: jdiv_def signed_zero_def signed_inf_def is_nan_iff)

lemma jmul_finite_not_nan:
  assumes "is_finite a" "is_finite b"
  shows "\<not> is_nan (jmul a b)"
  using assms round64_not_nan[of "rat_of a * rat_of b"]
  by (cases a; cases b) (auto simp: jmul_def signed_zero_def is_nan_iff)

lemma jfloor_not_nan: "\<not> is_nan a \<Longrightarrow> \<not> is_nan (jfloor a)"
  by (cases a) simp_all

lemma clamp_range:
  assumes "\<not> is_nan x" "0 \<le> d"
  shows "jle (Fin 0) (clamp x (Fin 0) (Fin d)) \<and> jle (clamp x (Fin 0) (Fin d)) (Fin d)"
  using assms by (cases x) (auto simp: clamp_def jge_def jle_def jlt_def jeq_def)

lemma clamp_finite:
  assumes "\<not> is_nan x"
  shows "is_finite (clamp x (Fin 0) (Fin n))"
  using assms by (cases x) (auto simp: clamp_def jge_def jle_def jlt_def jeq_def)

lemma duration_cong:
  "p_sprite s' = p_sprite s \<Longrightarrow> fps s' = fps s \<Longrightarrow> duration s' = duration s"
  by (simp add: duration_def fps_or_min_def split: option.splits)

lemma duration_update_simps:
  "duration (s\<lparr>p_frame := x\<rparr>) = duration s"
  "duration (s\<lparr>p_time := x\<rparr>) = duration s"
  by (simp_all add: duration_def fps_or_min_def split: option.splits)

lemma set_frame_time_range:
  assumes "p_sprite s = Some sp" "duration s = Fin d" "0 \<le> d" "\<not> is_nan v"
  shows "jle (Fin 0) (p_time (set_frame v s)) \<and> jle (p_time (set_frame v s)) (Fin d)"
proof -
  define f where "f = clamp v (Fin 0) (jlen (frames sp))"
  have ff: "is_finite f" using assms(4) by (simp add: f_def jlen_def clamp_finite)
  have dur: "duration (s\<lparr>p_frame := f\<rparr>) = Fin d"
    using assms(2) by (simp add: duration_update_simps)
  have "\<not> is_nan (jdiv f (fps_or_min s))"
    using ff fps_or_min_proper[of s] by (intro jdiv_not_nan) simp_all
  then have r: "jle (Fin 0) (clamp (jdiv f (fps_or_min s)) (Fin 0) (Fin d)) \<and>
      jle (clamp (jdiv f (fps_or_min s)) (Fin 0) (Fin d)) (Fin d)"
    using assms(3) by (rule clamp_range)
  have "p_time (set_frame v s) = clamp (jdiv f (fps_or_min s)) (Fin 0) (Fin d)"
    using assms(1) dur
    by (simp add: set_frame_def Let_def showFrame_def f_def fps_or_min_def)
  then show ?thesis using r by simp
qed

lemma set_frame_keeps:
  "fired (set_frame v s) = fired s \<and> p_sprite (set_frame v s) = p_sprite s \<and>
   fps (set_frame v s) = fps s \<and> loop (set_frame v s) = loop s \<and>
   p_playing (set_frame v s) = p_playing s \<and> p_paused (set_frame v s) = p_paused s"
  by (simp add: set_frame_def Let_def showFrame_def split: option.splits)

lemma fire_keeps:
  "p_time (fire ev s) = p_time s" "duration (fire ev s) = duration s"
  "fired (fire ev s) = fired s @ [(OnClip, ev)]"
  "p_time (component_fire ev s) = p_time s" "duration (component_fire ev s) = duration s"
  "fired (component_fire ev s) = fired s @ [(OnComponent, ev)]"
  by (simp_all add: fire_def component_fire_def duration_def fps_or_min_def split: option.splits)

section \<open>What the asset binding changes\<close>











subsection \<open>The rebinding on the example registry\<close>




section \<open>The relative error of rounding\<close>

lemma round_half_even_close: "\<bar>rat_of_int (round_half_even m) - m\<bar> \<le> 1 / 2"
proof -
  have "rat_of_int \<lfloor>m\<rfloor> \<le> m" "m < rat_of_int \<lfloor>m\<rfloor> + 1" by linarith+
  then show ?thesis
    by (auto simp: round_half_even_def Let_def abs_le_iff)
qed

lemma round64_relative:
  assumes "1 / 2 ^ 1000 \<le> q" "q \<le> 2 ^ 1000"
  shows "\<exists>r. round64 q = Fin r \<and> q - q / 2 ^ 53 \<le> r \<and> r \<le> q + q / 2 ^ 53"
proof -
  have q0: "0 < q"
  proof -
    have "(0::rat) < 1 / 2 ^ 1000" by simp
    then show ?thesis using assms(1) by linarith
  qed
  define e where "e = ilog2 q"
  have eb: "2 powi e \<le> q" "q < 2 powi (e + 1)"
    using ilog2_bounds[OF q0] by (simp_all add: e_def)
  have "(2::rat) powi (- 1000) \<le> q" using assms(1) by (simp add: power_int_minus field_simps)
  then have "(2::rat) powi (- 1000) < 2 powi (e + 1)" using eb(2) by linarith
  then have e_lo: "- 1000 < e + 1" by (rule powi2_less_D)
  then have emax: "max e (- 1022) = e" by simp
  define u where "u = (2::rat) powi (e - 52)"
  have u0: "0 < u" by (simp add: u_def)
  have pe: "(2::rat) powi e = 2 ^ 52 * u"
    unfolding u_def by (simp add: power_int_diff)
  have uq: "u \<le> q / 2 ^ 52"
    using eb(1) by (simp add: pe field_simps)
  define k where "k = round_half_even (q / u)"
  define r where "r = rat_of_int k * u"
  have "\<bar>rat_of_int k - q / u\<bar> \<le> 1 / 2"
    unfolding k_def by (rule round_half_even_close)
  then have "\<bar>rat_of_int k - q / u\<bar> * u \<le> 1 / 2 * u"
    using u0 by (intro mult_right_mono) simp_all
  then have "\<bar>(rat_of_int k - q / u) * u\<bar> \<le> u / 2"
    using u0 by (simp add: abs_mult)
  then have close: "\<bar>r - q\<bar> \<le> u / 2"
    using u0 by (simp add: r_def left_diff_distrib)
  have bnd: "\<bar>r - q\<bar> \<le> q / 2 ^ 53"
    using close uq by simp
  have lo: "q - q / 2 ^ 53 \<le> r" and hi: "r \<le> q + q / 2 ^ 53"
    using bnd by linarith+
  have rpos: "0 < r"
  proof -
    have "q / 2 ^ 53 < q" using q0 by (simp add: field_simps)
    then show ?thesis using lo by linarith
  qed
  have rsmall: "r < 2 powi 1024"
  proof -
    have "q / 2 ^ 53 \<le> q" using q0 by (simp add: field_simps)
    then have "r \<le> 2 * q" using hi by linarith
    also have "\<dots> \<le> 2 * 2 ^ 1000" using assms(2) by simp
    also have "\<dots> < (2::rat) powi 1024" by simp
    finally show ?thesis .
  qed
  have "round64 q = Fin r"
    using q0 rpos rsmall
    by (simp add: round64_def Let_def e_def[symmetric] emax u_def[symmetric] k_def[symmetric]
        r_def[symmetric])
  then show ?thesis using lo hi by blast
qed

lemma round_trip_quotient:
  fixes f n p tt dd t P Q :: rat
  assumes f: "1 \<le> f" "f \<le> n" "n < 2 ^ 32" and p: "0 < p"
    and tt: "f / p - f / p / 2 ^ 53 \<le> tt" "tt \<le> f / p + f / p / 2 ^ 53"
    and dd: "n / p - n / p / 2 ^ 53 \<le> dd" "dd \<le> n / p + n / p / 2 ^ 53"
    and t: "t = (if dd \<le> tt then dd else tt)"
    and P: "n * t - n * t / 2 ^ 53 \<le> P" "P \<le> n * t + n * t / 2 ^ 53"
    and Q: "P / dd - P / dd / 2 ^ 53 \<le> Q" "Q \<le> P / dd + P / dd / 2 ^ 53"
  shows "f - 1 < Q \<and> Q < f + 1"
proof -
  define a :: rat where "a = 1 - 1 / 2 ^ 53"
  define b :: rat where "b = 1 + 1 / 2 ^ 53"
  define A where "A = f / p"
  define B where "B = n / p"
  have a0: "0 < a" and b0: "0 < b" and ab: "a \<le> b" by (simp_all add: a_def b_def)
  have n0: "0 < n" using f by linarith
  have A0: "0 < A" using f p by (simp add: A_def)
  have B0: "0 < B" using n0 p by (simp add: B_def)
  have AB: "A \<le> B" using f p by (simp add: A_def B_def divide_right_mono)
  have tt': "a * A \<le> tt" "tt \<le> b * A"
    using tt by (simp_all add: a_def b_def A_def algebra_simps)
  have dd': "a * B \<le> dd" "dd \<le> b * B"
    using dd by (simp_all add: a_def b_def B_def algebra_simps)
  have dd0: "0 < dd"
  proof -
    have "0 < a * B" using a0 B0 by simp
    then show ?thesis using dd'(1) by linarith
  qed
  have aAB: "a * A \<le> a * B" using AB a0 by simp
  have t': "a * A \<le> t" "t \<le> b * A"
    using tt' dd' aAB by (auto simp: t)
  have t0: "0 < t"
  proof -
    have "0 < a * A" using a0 A0 by simp
    then show ?thesis using t'(1) by linarith
  qed
  have P': "a * (n * t) \<le> P" "P \<le> b * (n * t)"
    using P by (simp_all add: a_def b_def algebra_simps)
  have nt_lo: "n * (a * A) \<le> n * t" using t'(1) n0 by simp
  have nt_hi: "n * t \<le> n * (b * A)" using t'(2) n0 by simp
  have P_lo: "a * (n * (a * A)) \<le> P"
    using P'(1) nt_lo a0 by (meson mult_left_mono less_imp_le order_trans)
  have P_hi: "P \<le> b * (n * (b * A))"
    using P'(2) nt_hi b0 by (meson mult_left_mono less_imp_le order_trans)
  have P0: "0 < P"
  proof -
    have "0 < a * (n * (a * A))" using a0 n0 A0 by simp
    then show ?thesis using P_lo by linarith
  qed
  have nAB: "A * n = B * f" using p n0 by (simp add: A_def B_def)
  have PD_hi: "P / dd \<le> b * b * f / a"
  proof -
    have "P / dd \<le> b * (n * (b * A)) / (a * B)"
      using P_hi dd'(1) P0 a0 B0 by (intro frac_le) simp_all
    also have "\<dots> = b * b * f / a"
      using B0 a0 nAB by (simp add: field_simps)
    finally show ?thesis .
  qed
  have PD_lo: "a * a * f / b \<le> P / dd"
  proof -
    have "a * (n * (a * A)) / (b * B) \<le> P / dd"
      using P_lo dd'(2) dd0 a0 n0 A0 P0 by (intro frac_le) simp_all
    moreover have "a * (n * (a * A)) / (b * B) = a * a * f / b"
      using B0 b0 nAB by (simp add: field_simps)
    ultimately show ?thesis by simp
  qed
  have PD0: "0 < P / dd" using P0 dd0 by simp
  have Q': "a * (P / dd) \<le> Q" "Q \<le> b * (P / dd)"
    using Q by (simp_all add: a_def b_def algebra_simps)
  have Q_hi: "Q \<le> b * (b * b * f / a)"
    using Q'(2) PD_hi b0 by (meson mult_left_mono less_imp_le order_trans)
  have Q_lo: "a * (a * a * f / b) \<le> Q"
    using Q'(1) PD_lo a0 by (meson mult_left_mono less_imp_le order_trans)
  have c_hi: "b * (b * b * f / a) = f + f * (b * b * b / a - 1)"
    using a0 by (simp add: field_simps)
  have c_lo: "a * (a * a * f / b) = f - f * (1 - a * a * a / b)"
    using b0 by (simp add: field_simps)
  have k_hi: "b * b * b / a - 1 \<le> 1 / 2 ^ 50" by (simp add: a_def b_def)
  have k_lo: "1 - a * a * a / b \<le> 1 / 2 ^ 50" by (simp add: a_def b_def)
  have f0: "0 < f" using f by linarith
  have "f * (b * b * b / a - 1) \<le> f * (1 / 2 ^ 50)"
    using k_hi f0 by (intro mult_left_mono) simp_all
  also have "\<dots> < 1" using f by (simp add: field_simps)
  finally have hi: "f * (b * b * b / a - 1) < 1" .
  have "f * (1 - a * a * a / b) \<le> f * (1 / 2 ^ 50)"
    using k_lo f0 by (intro mult_left_mono) simp_all
  also have "\<dots> < 1" using f by (simp add: field_simps)
  finally have lo: "f * (1 - a * a * a / b) < 1" .
  show ?thesis
    using Q_hi Q_lo hi lo unfolding c_hi c_lo by linarith
qed

lemma jdiv_relative:
  assumes "0 < x" "0 < y" "1 / 2 ^ 1000 \<le> x / y" "x / y \<le> 2 ^ 1000"
  shows "\<exists>r. jdiv (Fin x) (Fin y) = Fin r \<and> x / y - x / y / 2 ^ 53 \<le> r \<and>
           r \<le> x / y + x / y / 2 ^ 53"
  using assms round64_relative[OF assms(3,4)] by (simp add: jdiv_Fin)

lemma jmul_relative:
  assumes "0 < x" "0 < y" "1 / 2 ^ 1000 \<le> x * y" "x * y \<le> 2 ^ 1000"
  shows "\<exists>r. jmul (Fin x) (Fin y) = Fin r \<and> x * y - x * y / 2 ^ 53 \<le> r \<and>
           r \<le> x * y + x * y / 2 ^ 53"
  using assms round64_relative[OF assms(3,4)] by (simp add: jmul_Fin)

lemma relative_coarse:
  fixes q r :: rat
  assumes "0 < q" "q - q / 2 ^ 53 \<le> r" "r \<le> q + q / 2 ^ 53"
  shows "0 < r \<and> q \<le> 2 * r \<and> r \<le> 2 * q"
proof -
  have "q / 2 ^ 53 \<le> q / 2" using assms(1) by (simp add: field_simps)
  then have "q / 2 \<le> r" "r \<le> 2 * q" using assms by (simp_all add: field_simps)
  then show ?thesis using assms(1) by (simp add: field_simps)
qed

lemma half_le:
  fixes q r c :: rat
  assumes "q \<le> 2 * r" "c \<le> q"
  shows "c / 2 \<le> r"
  using assms by linarith

lemma twice_le:
  fixes q r c :: rat
  assumes "r \<le> 2 * q" "q \<le> c"
  shows "r \<le> 2 * c"
  using assms by linarith

lemma set_frame_bound:
  assumes "p_sprite s = Some sp"
  shows "p_frame (set_frame v s) = clamp v (Fin 0) (jlen (frames sp)) \<and>
         p_time (set_frame v s) =
           clamp (jdiv (clamp v (Fin 0) (jlen (frames sp))) (fps_or_min s)) (Fin 0) (duration s) \<and>
         p_sprite (set_frame v s) = Some sp \<and> fps (set_frame v s) = fps s"
  using assms
  by (simp add: set_frame_def Let_def showFrame_def duration_update_simps fps_or_min_def)

lemma set_time_bound:
  assumes "p_sprite s = Some sp" "\<not> jlt v (Fin 0)" "\<not> jgt v (duration s)"
  shows "p_frame (set_time v s) =
           clamp (jfloor (jdiv (jmul (jlen (frames sp)) v) (duration s))) (Fin 0) (jlen (frames sp))"
proof -
  have "set_time v s =
      set_frame (jfloor (jdiv (jmul (jlen (frames sp)) v) (duration s))) (s\<lparr>p_time := v\<rparr>)"
    using assms by (simp add: set_time_def Let_def duration_update_simps)
  then show ?thesis
    using set_frame_bound[of "s\<lparr>p_time := v\<rparr>" sp] assms(1) by simp
qed

subsection \<open>The round trip at 5 frames per second\<close>

lemma round64_three_fifths: "round64 (3 / 5) = Fin (5404319552844595 / 9007199254740992)"
proof -
  have "ilog2 (3 / 5) = - 1" by (rule ilog2_unique) simp_all
  then show ?thesis
    by (simp add: round64_def Let_def round_half_even_def power_int_minus
        floor_rat_divide_numeral)
qed

lemma round64_four_fifths: "round64 (4 / 5) = Fin (3602879701896397 / 4503599627370496)"
proof -
  have "ilog2 (4 / 5) = - 1" by (rule ilog2_unique) simp_all
  then show ?thesis
    by (simp add: round64_def Let_def round_half_even_def power_int_minus
        floor_rat_divide_numeral)
qed

lemma round64_below_three:
  "round64 (10808639105689190 / 3602879701896397) = Fin (6755399441055743 / 2251799813685248)"
proof -
  have "ilog2 (10808639105689190 / 3602879701896397) = 1" by (rule ilog2_unique) simp_all
  then show ?thesis
    by (simp add: round64_def Let_def round_half_even_def power_int_minus
        floor_rat_divide_numeral)
qed

lemma five_fps4_set_frame:
  "set_frame (Fin 3) five_fps4 =
     five_fps4\<lparr>p_frame := Fin 3, p_time := Fin (5404319552844595 / 9007199254740992),
        shown := [Fin 3]\<rparr>"
  by (simp add: five_fps4_def clip4_def four_frames_def clip_defs fin_simps Let_def
      round64_three_fifths round64_four_fifths)

lemma five_fps4_set_time:
  "p_frame (set_time (Fin (5404319552844595 / 9007199254740992))
       (five_fps4\<lparr>p_frame := Fin 3, p_time := Fin (5404319552844595 / 9007199254740992),
          shown := [Fin 3]\<rparr>)) = Fin 2"
  by (simp add: five_fps4_def clip4_def four_frames_def clip_defs fin_simps Let_def
      round64_three_fifths round64_four_fifths round64_below_three
      round64_dyadic[where k = 51, simplified])

section \<open>The early exit of \<open>_update\<close>\<close>

text \<open>
  When \<open>fps === 0\<close> (\<open>+0\<close> or \<open>-0\<close>), \<open>_update\<close> returns at its first line and the state is
  unchanged.  This is the only early exit that depends on the frame rate; the sprite is not
  looked at.
\<close>

lemma update_fps_zero_unchanged:
  assumes "jeq (fps s) (Fin 0)"
  shows "update dt s = s"
  using assms by (simp add: update_def)

lemma update_fps_zero_unchanged_zero_fps4:
  "jeq (fps (play zero_fps4)) (Fin 0) \<and> update (Fin 1) (play zero_fps4) = play zero_fps4"
proof -
  have h: "jeq (fps (play zero_fps4)) (Fin 0)" by (simp add: eval_simps)
  show ?thesis using h update_fps_zero_unchanged[OF h, of "Fin 1"] by simp
qed

section \<open>From frame to time and back at a positive frame rate\<close>

text \<open>
  For a clip with a sprite of at least 1 and fewer than \<open>2^32\<close> frames, an \<open>fps\<close> between
  \<open>2^-64\<close> and \<open>2^64\<close>, and a frame index \<open>f\<close> from 0 to the number of frames: assigning
  \<open>frame = f\<close> stores \<open>f\<close>, and assigning the time then read back to \<open>time\<close> yields the frame
  \<open>f\<close> again or, when \<open>f > 0\<close>, the frame \<open>f - 1\<close>: the quotient
  \<open>frames.length * time / duration\<close> is \<open>f\<close> up to four roundings, and its floor is \<open>f - 1\<close>
  when it falls just below \<open>f\<close>.
\<close>

lemma frame_time_round_trip:
  assumes "p_sprite s = Some sp" "1 \<le> length (frames sp)" "length (frames sp) < 2 ^ 32"
    and "f \<le> length (frames sp)"
    and "fps s = Fin p" "1 / 2 ^ 64 \<le> p" "p \<le> 2 ^ 64"
    and "s1 = set_frame (Fin (of_nat f)) s" "s2 = set_time (p_time s1) s1"
  shows "p_frame s1 = Fin (of_nat f) \<and>
         (p_frame s2 = Fin (of_nat f) \<or> 0 < f \<and> p_frame s2 = Fin (of_nat f - 1))"
proof -
  define N :: rat where "N = of_nat (length (frames sp))"
  define F :: rat where "F = of_nat f"
  have N1: "1 \<le> N" using assms(2) by (simp add: N_def)
  have N32: "N < 2 ^ 32"
  proof -
    have "rat_of_nat (length (frames sp)) < rat_of_nat (2 ^ 32)"
      using assms(3) by (simp only: of_nat_less_iff)
    then show ?thesis by (simp add: N_def)
  qed
  have FN: "F \<le> N" using assms(4) by (simp add: F_def N_def)
  have F0: "0 \<le> F" by (simp add: F_def)
  have p0: "0 < p"
  proof -
    have "(0::rat) < 1 / 2 ^ 64" by simp
    then show ?thesis using assms(6) by linarith
  qed
  have fm: "fps_or_min s = Fin p" using assms(5) p0 by (simp add: fps_or_min_def truthy_def)
  have len: "jlen (frames sp) = Fin N" by (simp add: jlen_def N_def)
  have Np_lo: "1 / 2 ^ 64 \<le> N / p"
  proof -
    have "p \<le> 2 ^ 64 * N" using assms(7) N1 by (simp add: order_trans[OF _ mult_left_mono[of 1 N "2 ^ 64"]])
    then show ?thesis using p0 by (simp add: field_simps)
  qed
  have Np_hi: "N / p \<le> 2 ^ 96"
  proof -
    have "N \<le> 2 ^ 32 * (2 ^ 64 * p)" using assms(6) N32 by (simp add: field_simps)
    then show ?thesis using p0 by (simp add: field_simps)
  qed
  obtain dd where dd: "jdiv (Fin N) (Fin p) = Fin dd" "N / p - N / p / 2 ^ 53 \<le> dd"
      "dd \<le> N / p + N / p / 2 ^ 53"
    using jdiv_relative[of N p] N1 p0 Np_lo Np_hi by auto
  have Np0: "0 < N / p" using N1 p0 by simp
  have ddc: "0 < dd" "N / p \<le> 2 * dd" "dd \<le> 2 * (N / p)"
    using relative_coarse[OF Np0 dd(2,3)] by simp_all
  have dd0: "0 < dd" by (rule ddc(1))
  have dur: "duration s = Fin dd" using assms(1) by (simp add: duration_def fm len dd(1))
  have fr1: "p_frame s1 = Fin F"
    using set_frame_bound[OF assms(1), of "Fin (of_nat f)"] FN F0
    by (auto simp: assms(8) len clamp_Fin F_def)
  have k1: "p_sprite s1 = Some sp" "fps s1 = fps s"
    using set_frame_bound[OF assms(1), of "Fin (of_nat f)"] by (simp_all add: assms(8))
  have dur1: "duration s1 = Fin dd"
    using duration_cong[of s1 s] k1 assms(1) dur by simp
  have t1: "p_time s1 = clamp (jdiv (Fin F) (Fin p)) (Fin 0) (Fin dd)"
    using set_frame_bound[OF assms(1), of "Fin (of_nat f)"] fr1
    by (simp add: assms(8) fm dur)
  have clampN: "clamp (Fin (rat_of_int k)) (Fin 0) (Fin N) = Fin (rat_of_int k)"
    if "0 \<le> k" "rat_of_int k \<le> N" for k
    using that by (auto simp: clamp_Fin)
  show ?thesis
  proof (cases "f = 0")
    case True
    then have Fz: "F = 0" by (simp add: F_def)
    have tz: "p_time s1 = Fin 0"
      using dd0 p0 by (simp add: t1 Fz jdiv_Fin signed_zero_def clamp_Fin)
    have "p_frame s2 =
        clamp (jfloor (jdiv (jmul (jlen (frames sp)) (Fin 0)) (duration s1))) (Fin 0)
          (jlen (frames sp))"
      unfolding assms(9) tz
      using dd0 by (intro set_time_bound[OF k1(1)]) (simp_all add: dur1 jlt_Fin jgt_Fin)
    then have "p_frame s2 = Fin 0"
      using dd0 N1 by (simp add: len dur1 jmul_Fin jdiv_Fin signed_zero_def clamp_Fin)
    then show ?thesis using fr1 True by (simp add: F_def)
  next
    case False
    then have F1: "1 \<le> F" by (simp add: F_def)
    have Fp0: "0 < F / p" using F1 p0 by simp
    have Fp_lo: "1 / 2 ^ 64 \<le> F / p"
    proof -
      have "p \<le> 2 ^ 64 * F"
        using assms(7) F1 by (simp add: order_trans[OF _ mult_left_mono[of 1 F "2 ^ 64"]])
      then show ?thesis using p0 by (simp add: field_simps)
    qed
    have Fp_hi: "F / p \<le> 2 ^ 96"
    proof -
      have "F / p \<le> N / p" using FN p0 by (simp add: divide_right_mono)
      then show ?thesis using Np_hi by linarith
    qed
    obtain tt where tt: "jdiv (Fin F) (Fin p) = Fin tt" "F / p - F / p / 2 ^ 53 \<le> tt"
        "tt \<le> F / p + F / p / 2 ^ 53"
      using jdiv_relative[of F p] F1 p0 Fp_lo Fp_hi by auto
    have ttc: "0 < tt" "F / p \<le> 2 * tt" "tt \<le> 2 * (F / p)"
      using relative_coarse[OF Fp0 tt(2,3)] by simp_all
    define t where "t = (if dd \<le> tt then dd else tt)"
    have tval: "p_time s1 = Fin t"
      using ttc(1) by (simp add: t1 tt(1) clamp_Fin t_def)
    have t_pos: "0 < t" and t_dd: "t \<le> dd" using ttc(1) dd0 by (simp_all add: t_def)
    have dd_lo: "1 / 2 ^ 65 \<le> dd" using half_le[OF ddc(2) Np_lo] by simp
    have dd_hi: "dd \<le> 2 ^ 97" using twice_le[OF ddc(3) Np_hi] by simp
    have tt_lo: "1 / 2 ^ 65 \<le> tt" using half_le[OF ttc(2) Fp_lo] by simp
    have tt_hi: "tt \<le> 2 ^ 97" using twice_le[OF ttc(3) Fp_hi] by simp
    have t_lo: "1 / 2 ^ 66 \<le> t"
    proof -
      have "(1::rat) / 2 ^ 66 \<le> 1 / 2 ^ 65" by simp
      then show ?thesis using dd_lo tt_lo unfolding t_def by (auto intro: order_trans)
    qed
    have t_hi: "t \<le> 2 ^ 97"
      using dd_hi tt_hi by (simp add: t_def)
    have Nt0: "0 < N * t" using N1 t_pos by simp
    have Nt66: "1 / 2 ^ 66 \<le> N * t"
    proof -
      have "1 / 2 ^ 66 \<le> 1 * t" using t_lo by simp
      also have "\<dots> \<le> N * t" using N1 t_pos by (intro mult_right_mono) simp_all
      finally show ?thesis .
    qed
    have Nt_lo: "1 / 2 ^ 1000 \<le> N * t"
    proof -
      have "(1::rat) / 2 ^ 1000 \<le> 1 / 2 ^ 66" by simp
      then show ?thesis using Nt66 by linarith
    qed
    have Nt_hi: "N * t \<le> 2 ^ 129"
    proof -
      have "N * t \<le> 2 ^ 32 * 2 ^ 97"
        using N32 t_hi N1 t_pos by (intro mult_mono) simp_all
      then show ?thesis by simp
    qed
    obtain P where P: "jmul (Fin N) (Fin t) = Fin P" "N * t - N * t / 2 ^ 53 \<le> P"
        "P \<le> N * t + N * t / 2 ^ 53"
      using jmul_relative[of N t] N1 t_pos Nt_lo Nt_hi by auto
    have Pc: "0 < P" "N * t \<le> 2 * P" "P \<le> 2 * (N * t)"
      using relative_coarse[OF Nt0 P(2,3)] by simp_all
    have Pd0: "0 < P / dd" using Pc(1) dd0 by simp
    have Pd_lo: "1 / 2 ^ 1000 \<le> P / dd"
    proof -
      have "dd \<le> 2 ^ 97" by (rule dd_hi)
      moreover have "1 / 2 ^ 67 \<le> P" using half_le[OF Pc(2) Nt66] by simp
      ultimately have "1 / 2 ^ 67 / 2 ^ 97 \<le> P / dd"
        using dd0 by (intro frac_le) simp_all
      moreover have "(1::rat) / 2 ^ 1000 \<le> 1 / 2 ^ 67 / 2 ^ 97" by simp
      ultimately show ?thesis by linarith
    qed
    have Pd_hi: "P / dd \<le> 2 ^ 1000"
    proof -
      have "1 / 2 ^ 65 \<le> dd" by (rule dd_lo)
      moreover have "P \<le> 2 ^ 130" using twice_le[OF Pc(3) Nt_hi] by simp
      ultimately have "P / dd \<le> 2 ^ 130 / (1 / 2 ^ 65)"
        using Pc(1) by (intro frac_le) simp_all
      moreover have "(2::rat) ^ 130 / (1 / 2 ^ 65) \<le> 2 ^ 1000" by simp
      ultimately show ?thesis by linarith
    qed
    obtain Q where Q: "jdiv (Fin P) (Fin dd) = Fin Q" "P / dd - P / dd / 2 ^ 53 \<le> Q"
        "Q \<le> P / dd + P / dd / 2 ^ 53"
      using jdiv_relative[of P dd] Pc(1) dd0 Pd_lo Pd_hi by auto
    have Qb: "F - 1 < Q \<and> Q < F + 1"
      using round_trip_quotient[OF F1 FN N32 p0 tt(2,3) dd(2,3) t_def P(2,3) Q(2,3)] .
    have fl: "\<lfloor>Q\<rfloor> = int f \<or> \<lfloor>Q\<rfloor> = int f - 1"
    proof (cases "F \<le> Q")
      case True
      then have "\<lfloor>Q\<rfloor> = int f" using Qb by (intro floor_unique) (simp_all add: F_def)
      then show ?thesis by simp
    next
      case False
      then have "\<lfloor>Q\<rfloor> = int f - 1" using Qb by (intro floor_unique) (simp_all add: F_def)
      then show ?thesis by simp
    qed
    have "0 \<le> Q" using Qb F1 by linarith
    then have fl0a: "0 \<le> \<lfloor>Q\<rfloor>" by simp
    have fl0b: "rat_of_int \<lfloor>Q\<rfloor> \<le> N"
    proof -
      have "rat_of_int \<lfloor>Q\<rfloor> = F \<or> rat_of_int \<lfloor>Q\<rfloor> = F - 1"
        using fl by (auto simp: F_def)
      then show ?thesis using FN by linarith
    qed
    note fl0 = fl0a fl0b
    have "p_frame s2 =
        clamp (jfloor (jdiv (jmul (jlen (frames sp)) (Fin t)) (duration s1))) (Fin 0)
          (jlen (frames sp))"
      unfolding assms(9) tval
      using t_pos t_dd by (intro set_time_bound[OF k1(1)]) (simp_all add: dur1 jlt_Fin jgt_Fin)
    then have "p_frame s2 = Fin (rat_of_int \<lfloor>Q\<rfloor>)"
      using clampN[OF fl0] by (simp add: len dur1 P(1) Q(1))
    then show ?thesis using fr1 fl False by (auto simp: F_def)
  qed
qed

text \<open>At 5 frames per second the frame 3 comes back as 2: the time is the double next to
  \<open>0.6\<close>, the duration the double next to \<open>0.8\<close>, and \<open>4 * time / duration\<close> is the double just
  below 3.  At 2 frames per second all values are exact and the frame 3 comes back as 3.\<close>

lemma frame_time_round_trip_five_fps:
  "p_sprite five_fps4 = Some four_frames \<and> 1 \<le> length (frames four_frames) \<and>
   length (frames four_frames) < 2 ^ 32 \<and> (3::nat) \<le> length (frames four_frames) \<and>
   fps five_fps4 = Fin 5 \<and> (1::rat) / 2 ^ 64 \<le> 5 \<and> (5::rat) \<le> 2 ^ 64 \<and>
   p_frame (set_frame (Fin (of_nat 3)) five_fps4) = Fin (of_nat 3) \<and>
   (p_frame (set_time (p_time (set_frame (Fin (of_nat 3)) five_fps4))
       (set_frame (Fin (of_nat 3)) five_fps4)) = Fin (of_nat 3) \<or>
    (0::nat) < 3 \<and>
    p_frame (set_time (p_time (set_frame (Fin (of_nat 3)) five_fps4))
       (set_frame (Fin (of_nat 3)) five_fps4)) = Fin (of_nat 3 - 1)) \<and>
   p_frame (set_time (p_time (set_frame (Fin 3) five_fps4)) (set_frame (Fin 3) five_fps4)) = Fin 2 \<and>
   p_frame (set_time (p_time (set_frame (Fin 3) clip4)) (set_frame (Fin 3) clip4)) = Fin 3"
proof -
  have h: "p_sprite five_fps4 = Some four_frames" "1 \<le> length (frames four_frames)"
    "length (frames four_frames) < 2 ^ 32" "(3::nat) \<le> length (frames four_frames)"
    "fps five_fps4 = Fin 5" "(1::rat) / 2 ^ 64 \<le> 5" "(5::rat) \<le> 2 ^ 64"
    by (simp_all add: five_fps4_def clip4_def four_frames_def)
  note t = frame_time_round_trip[OF h refl refl]
  have e5: "p_frame (set_time (p_time (set_frame (Fin 3) five_fps4)) (set_frame (Fin 3) five_fps4)) =
      Fin 2"
    unfolding five_fps4_set_frame by (simp add: five_fps4_set_time)
  have e2: "p_frame (set_time (p_time (set_frame (Fin 3) clip4)) (set_frame (Fin 3) clip4)) = Fin 3"
    by (simp add: eval_simps)
  show ?thesis
    using h t e5 e2 by blast
qed

section \<open>From frame to time and back at the frame rate 0\<close>

text \<open>
  The clip \<open>zero_fps4\<close> has 4 frames and \<open>fps = 0\<close>, so that the setters divide by
  \<open>Number.MIN_VALUE\<close>.  Assigning \<open>frame = 1\<close> stores the time \<open>Infinity\<close>; assigning that time
  to \<open>time\<close>, as a caller or as the \<open>sprite\<close> setter does, stores NaN as time and as frame.
\<close>

lemmas inf_defs = MIN_VALUE_def round64_overflow jmul_def jdiv_def clamp_def jge_def jle_def
  jlt_def jeq_def jgt_def

lemma zero_fps4_set_frame:
  "set_frame (Fin 1) zero_fps4 =
     zero_fps4\<lparr>p_frame := Fin 1, p_time := PInf, shown := [Fin 1]\<rparr>"
  by (simp add: zero_fps4_def clip4_def four_frames_def clip_defs fin_simps Let_def inf_defs)

lemma zero_fps4_set_time:
  "set_time PInf (zero_fps4\<lparr>p_frame := Fin 1, p_time := PInf, shown := [Fin 1]\<rparr>) =
     zero_fps4\<lparr>p_frame := NaN, p_time := NaN, shown := [Fin 1, NaN]\<rparr>"
  by (simp add: zero_fps4_def clip4_def four_frames_def clip_defs fin_simps Let_def inf_defs)

lemma zero_fps4_set_sprite:
  "set_sprite (Some loaded_frames)
       (zero_fps4\<lparr>p_frame := Fin 1, p_time := PInf, shown := [Fin 1]\<rparr>) =
     zero_fps4\<lparr>p_sprite := Some loaded_frames, mesh_callbacks := [loaded_frames],
        p_frame := NaN, p_time := NaN, shown := [Fin 1, NaN]\<rparr>"
  by (simp add: zero_fps4_def clip4_def four_frames_def loaded_frames_def clip_defs fin_simps
      Let_def set_texture_parameters_def inf_defs)

lemma zero_fps4_current: "currentClip_is_this zero_fps4"
  by (simp add: zero_fps4_def clip4_def)

section \<open>The claims\<close>

subsection \<open>C1: advancing a clip of duration 0\<close>

text \<open>
  C1.  The clip \<open>unbound_playing4\<close> has no sprite, so its duration is 0; it loops, plays, is
  not paused, has \<open>fps = 2\<close>, time 0 and frame 0.  \<open>_update(1)\<close> does not return early on it:
  it stores the time \<open>1 % 0\<close>, which is NaN, and leaves the frame 0; a second \<open>_update(1)\<close>
  stores NaN again.  On the same clip the \<open>time\<close> setter ends at time 0: it always assigns
  \<open>frame = 0\<close>, and the \<open>frame\<close> setter resets the time of a clip without a sprite, where
  \<open>_update\<close> assigns the frame only when it differs from the current one.
\<close>

theorem update_no_sprite_time_nan:
  "p_sprite unbound_playing4 = None \<and> duration unbound_playing4 = Fin 0 \<and>
   fps unbound_playing4 = Fin 2 \<and> loop unbound_playing4 \<and>
   p_playing unbound_playing4 \<and> \<not> p_paused unbound_playing4 \<and>
   p_time unbound_playing4 = Fin 0 \<and> p_frame unbound_playing4 = Fin 0 \<and>
   p_time (update (Fin 1) unbound_playing4) = NaN \<and>
   p_frame (update (Fin 1) unbound_playing4) = Fin 0 \<and>
   p_time (update (Fin 1) (update (Fin 1) unbound_playing4)) = NaN \<and>
   p_time (set_time (Fin 5) unbound_playing4) = Fin 0"
  by (simp add: eval_simps jadd_def jgt_def jlt_def)

text \<open>The guards of \<open>_update\<close> are passed on this input: the clip plays, is not paused and
  its \<open>fps\<close> is not 0; the time stored is not a number.\<close>

theorem update_no_sprite_time_nan_witness:
  "\<not> jeq (fps unbound_playing4) (Fin 0) \<and> p_playing unbound_playing4 \<and>
   \<not> p_paused unbound_playing4 \<and> is_nan (p_time (update (Fin 1) unbound_playing4))"
  using update_no_sprite_time_nan
  by (simp add: jeq_Fin)

subsection \<open>C2: the duration\<close>

text \<open>
  C2, as amended.  Without a sprite the duration is 0.  With a sprite it is
  \<open>frames.length / (fps || Number.MIN_VALUE)\<close>: the quotient \<open>frames.length / fps\<close> for
  every \<open>fps\<close> that is not 0 and not NaN, and \<open>frames.length / Number.MIN_VALUE\<close> otherwise,
  which is \<open>Infinity\<close> when the sprite has a frame and 0 when it has none.
\<close>

theorem duration_cases:
  "(p_sprite s = None \<longrightarrow> duration s = Fin 0) \<and>
   (p_sprite s = Some sp \<and> truthy (fps s) \<longrightarrow> duration s = jdiv (jlen (frames sp)) (fps s)) \<and>
   (p_sprite s = Some sp \<and> \<not> truthy (fps s) \<longrightarrow>
      duration s = (if frames sp = [] then Fin 0 else PInf))"
  by (simp add: duration_def fps_or_min_def jdiv_jlen_MIN_VALUE)

theorem duration_cases_witness:
  "(p_sprite unbound4 = None \<and> duration unbound4 = Fin 0) \<and>
   (p_sprite clip4 = Some four_frames \<and> truthy (fps clip4) \<and>
      duration clip4 = jdiv (jlen (frames four_frames)) (fps clip4)) \<and>
   (p_sprite zero_fps4 = Some four_frames \<and> \<not> truthy (fps zero_fps4) \<and> duration zero_fps4 = PInf)"
  using duration_cases[of unbound4 four_frames] duration_cases[of clip4 four_frames]
    duration_cases[of zero_fps4 four_frames]
  by (simp add: unbound4_eq zero_fps4_def clip4_def four_frames_def truthy_def)

text \<open>With four frames and \<open>fps = 0\<close> the duration is \<open>Infinity\<close>, not 0.\<close>

theorem duration_fps_zero_counterexample:
  "p_sprite zero_fps4 = Some four_frames \<and> fps zero_fps4 = Fin 0 \<and> duration zero_fps4 = PInf"
  by (simp add: zero_fps4_def clip4_def four_frames_def duration_def fps_or_min_def truthy_def
      jdiv_jlen_MIN_VALUE)

subsection \<open>C3: play\<close>

text \<open>
  C3, as amended.  \<open>play()\<close> is a no-op whenever the clip is playing, paused or not; on a
  stopped clip it sets \<open>playing\<close>, clears \<open>paused\<close>, assigns \<open>frame = 0\<close> through the setter
  (which notifies the renderer when the clip is the current one) and fires \<open>play\<close> on the
  clip and then on the component.
\<close>

theorem play_cases:
  "(p_playing s \<longrightarrow> play s = s) \<and>
   (\<not> p_playing s \<longrightarrow>
      p_playing (play s) \<and> \<not> p_paused (play s) \<and> p_frame (play s) = Fin 0 \<and>
      shown (play s) = (if currentClip_is_this s then shown s @ [Fin 0] else shown s) \<and>
      fired (play s) = fired s @ [(OnClip, ''play''), (OnComponent, ''play'')])"
  by (auto simp: play_def set_frame_def fire_def component_fire_def showFrame_def Let_def
      clamp_def jge_def jle_def jlt_def jeq_def jlen_def split: option.splits)

theorem play_cases_witness:
  "(p_playing paused4 \<and> play paused4 = paused4) \<and>
   (\<not> p_playing clip4 \<and> p_playing (play clip4) \<and> \<not> p_paused (play clip4) \<and>
      p_frame (play clip4) = Fin 0 \<and> shown (play clip4) = [Fin 0] \<and>
      fired (play clip4) = [(OnClip, ''play''), (OnComponent, ''play'')])"
  using play_cases[of paused4] play_cases[of clip4]
  by (simp add: paused4_eq clip4_def)

text \<open>On the paused clip \<open>play()\<close> leaves the paused flag set and the frame at 3, and fires
  nothing.\<close>

theorem play_paused_counterexample:
  "p_playing paused4 \<and> p_paused paused4 \<and> p_frame paused4 = Fin 3 \<and>
   p_paused (play paused4) \<and> p_frame (play paused4) = Fin 3 \<and>
   fired (play paused4) = fired paused4"
  by (simp add: paused4_eq play_def clip4_def)

subsection \<open>C4: the time of a looping clip\<close>

text \<open>
  C4, as amended.  For every looping clip that is playing and not paused, with a bound
  sprite and a finite duration above 0, whose time is not negative and whose component
  has a speed that is not negative: after \<open>_update(dt)\<close> with \<open>dt >= 0\<close> and a finite raw time
  \<open>time + dt * speed\<close>, the time satisfies \<open>0 <= time <= duration\<close> (the time can be the
  duration itself, since the time wraps only when the raw time exceeds the duration), and
  \<open>loop\<close> is fired once on the clip and once on the component when the raw time exceeds
  the duration, however many periods it spans, and not at all otherwise.
\<close>

theorem update_loop_time_range:
  assumes "loop s" "p_playing s" "\<not> p_paused s"
    and "p_sprite s = Some sp" "duration s = Fin d" "0 < d"
    and "jle (Fin 0) (p_time s)" "jle (Fin 0) dt" "jle (Fin 0) (speed s)"
    and "is_finite (jadd (p_time s) (jmul dt (speed s)))"
  shows "jle (Fin 0) (p_time (update dt s)) \<and>
         jle (p_time (update dt s)) (duration (update dt s)) \<and>
         duration (update dt s) = duration s \<and>
         fired (update dt s) =
           (if jgt (jadd (p_time s) (jmul dt (speed s))) (duration s)
            then fired s @ [(OnClip, ''loop''), (OnComponent, ''loop'')] else fired s)"
proof -
  let ?raw = "jadd (p_time s) (jmul dt (speed s))"
  have fin: "is_finite ?raw" using assms(10) by simp
  have "jmul dt (speed s) \<noteq> NaN"
    using fin by (auto simp: jadd_def)
  then have "jle (Fin 0) (jmul dt (speed s))"
    using jmul_nonneg[OF assms(8,9)] by simp
  then have raw0: "jle (Fin 0) ?raw"
    by (rule jadd_nonneg[OF assms(7)])
  have fps0: "\<not> jeq (fps s) (Fin 0)"
  proof
    assume "jeq (fps s) (Fin 0)"
    then have "\<not> truthy (fps s)" by (cases "fps s") (auto simp: jeq_def truthy_def)
    then have "duration s = (if frames sp = [] then Fin 0 else PInf)"
      using assms(4) by (simp add: duration_def fps_or_min_def jdiv_jlen_MIN_VALUE)
    then show False using assms(5,6) by (auto split: if_splits)
  qed
  let ?t2 = "if jgt ?raw (Fin d) then jmod ?raw (Fin d) else ?raw"
  let ?s2 = "s\<lparr>p_time := ?t2\<rparr>"
  have t2r: "is_finite ?t2 \<and> jle (Fin 0) ?t2 \<and> jle ?t2 (Fin d)"
  proof (cases "jgt ?raw (Fin d)")
    case True
    then obtain r where r: "?raw = Fin r" "d < r"
      using fin assms(6) by (cases ?raw) (auto simp: jgt_def jlt_def)
    obtain r' where "jmod (Fin r) (Fin d) = Fin r'" "0 \<le> r'" "r' < d"
      using jmod_range[OF assms(6) r(2)] by blast
    then show ?thesis using True r by (simp add: jle_Fin)
  next
    case False
    then have "jle ?raw (Fin d)" using fin
      by (cases ?raw) (auto simp: jgt_def jlt_def jle_def jeq_def)
    then show ?thesis using False fin raw0 by simp
  qed
  have d2: "duration ?s2 = Fin d" using assms(5) by (simp add: duration_update_simps)
  have sp2: "p_sprite ?s2 = Some sp" using assms(4) by simp
  let ?frame = "jfloor (jdiv (jmul (jlen (frames sp)) ?t2) (Fin d))"
  have fr: "\<not> is_nan ?frame"
    using t2r assms(6)
    by (intro jfloor_not_nan jdiv_Fin_pos_not_nan jmul_finite_not_nan) (simp_all add: jlen_def)
  let ?s3 = "if \<not> jeq ?frame (p_frame s) then set_frame ?frame ?s2 else ?s2"
  have t3: "jle (Fin 0) (p_time ?s3) \<and> jle (p_time ?s3) (Fin d)"
  proof (cases "jeq ?frame (p_frame s)")
    case True
    then show ?thesis using t2r by simp
  next
    case False
    then show ?thesis
      using set_frame_time_range[OF sp2 d2 _ fr] assms(6) by simp
  qed
  have k3: "fired ?s3 = fired s" "p_sprite ?s3 = p_sprite s" "fps ?s3 = fps s" "loop ?s3"
    using assms(1) by (simp_all add: set_frame_keeps)
  have d3: "duration ?s3 = Fin d"
    using duration_cong[OF k3(2,3)] assms(5) by simp
  have upd: "update dt s =
      (if jgt ?raw (Fin d) then component_fire ''loop'' (fire ''loop'' ?s3) else ?s3)"
  proof (cases "jgt ?raw (Fin d)")
    case True
    show ?thesis
    proof (cases "jeq ?frame (p_frame s)")
      case eq: True
      show ?thesis
        using fps0 assms(1-5) True eq
        by (simp add: update_def Let_def duration_update_simps)
    next
      case neq: False
      show ?thesis
        using fps0 assms(1-5) True neq
        by (simp add: update_def Let_def duration_update_simps set_frame_keeps)
    qed
  next
    case False
    show ?thesis
    proof (cases "jeq ?frame (p_frame s)")
      case eq: True
      show ?thesis
        using fps0 assms(1-5) False eq
        by (simp add: update_def Let_def duration_update_simps)
    next
      case neq: False
      show ?thesis
        using fps0 assms(1-5) False neq
        by (simp add: update_def Let_def duration_update_simps set_frame_keeps)
    qed
  qed
  have res: "jle (Fin 0) (p_time (update dt s)) \<and> jle (p_time (update dt s)) (Fin d) \<and>
      duration (update dt s) = Fin d \<and>
      fired (update dt s) =
        (if jgt ?raw (Fin d) then fired s @ [(OnClip, ''loop''), (OnComponent, ''loop'')]
         else fired s)"
  proof (cases "jgt ?raw (Fin d)")
    case True
    then have "update dt s = component_fire ''loop'' (fire ''loop'' ?s3)"
      by (simp only: upd if_True)
    then show ?thesis
      using t3 d3 k3(1) True
      by (simp only: fire_keeps if_True append_Cons append_Nil append_assoc simp_thms)
  next
    case False
    then have "update dt s = ?s3" by (simp only: upd if_False)
    then show ?thesis using t3 d3 k3(1) False by (simp only: if_False simp_thms)
  qed
  then show ?thesis using assms(5) by simp
qed

theorem update_loop_time_range_witness:
  "loop playing4 \<and> p_playing playing4 \<and> \<not> p_paused playing4 \<and>
   p_sprite playing4 = Some four_frames \<and> duration playing4 = Fin 2 \<and>
   jle (Fin 0) (p_time playing4) \<and> jle (Fin 0) (Fin (5 / 2)) \<and> jle (Fin 0) (speed playing4) \<and>
   is_finite (jadd (p_time playing4) (jmul (Fin (5 / 2)) (speed playing4))) \<and>
   jgt (jadd (p_time playing4) (jmul (Fin (5 / 2)) (speed playing4))) (duration playing4) \<and>
   jle (Fin 0) (p_time (update (Fin (5 / 2)) playing4)) \<and>
   jle (p_time (update (Fin (5 / 2)) playing4)) (duration (update (Fin (5 / 2)) playing4)) \<and>
   fired (update (Fin (5 / 2)) playing4) =
     fired playing4 @ [(OnClip, ''loop''), (OnComponent, ''loop'')]"
proof -
  have h: "loop playing4" "p_playing playing4" "\<not> p_paused playing4"
    "p_sprite playing4 = Some four_frames" "duration playing4 = Fin 2" "(0::rat) < 2"
    "jle (Fin 0) (p_time playing4)" "jle (Fin 0) (Fin (5 / 2))" "jle (Fin 0) (speed playing4)"
    "is_finite (jadd (p_time playing4) (jmul (Fin (5 / 2)) (speed playing4)))"
    by (simp_all add: eval_simps)
  have g: "jgt (jadd (p_time playing4) (jmul (Fin (5 / 2)) (speed playing4))) (duration playing4)"
    by (simp add: eval_simps)
  show ?thesis
    using h g update_loop_time_range[OF h] by auto
qed

text \<open>A looping clip of duration 2 advanced from 0 by exactly 2 has the time 2, which is
  not below the duration, and fires no \<open>loop\<close>.\<close>

theorem update_loop_time_counterexample:
  "loop playing4 \<and> jgt (duration playing4) (Fin 0) \<and> p_playing playing4 \<and> \<not> p_paused playing4 \<and>
   jge (Fin 2) (Fin 0) \<and>
   p_time (update (Fin 2) playing4) = Fin 2 \<and> duration (update (Fin 2) playing4) = Fin 2 \<and>
   \<not> jlt (p_time (update (Fin 2) playing4)) (duration (update (Fin 2) playing4)) \<and>
   fired (update (Fin 2) playing4) = fired playing4"
  by (simp add: eval_simps)

subsection \<open>C5: the end of a clip that plays once\<close>

text \<open>
  C5.  The one second long clip of four frames, playing from time 0, after \<open>_update(1.2)\<close>:
  the time is the duration, \<open>end\<close> is fired once on the clip and on the component, the clip
  no longer plays and a further \<open>_update\<close> changes nothing; but the frame is 4, the number
  of frames, where the last frame index is 3, and 4 is what the renderer is given.
\<close>

theorem update_end_frame_out_of_range:
  "duration once4 = Fin 1 \<and> p_playing once4 \<and> \<not> loop once4 \<and>
   p_time (update dt_1_2 once4) = Fin 1 \<and>
   p_frame (update dt_1_2 once4) = Fin 4 \<and>
   p_sprite (update dt_1_2 once4) = Some four_frames \<and> length (frames four_frames) = 4 \<and>
   shown (update dt_1_2 once4) = shown once4 @ [Fin 4] \<and>
   fired (update dt_1_2 once4) = fired once4 @ [(OnClip, ''end''), (OnComponent, ''end'')] \<and>
   \<not> p_playing (update dt_1_2 once4) \<and>
   update dt_1_2 (update dt_1_2 once4) = update dt_1_2 once4"
  by (simp add: eval_simps)

text \<open>The guards of \<open>_update\<close> are passed on this input: the clip plays, is not paused and
  its \<open>fps\<close> is not 0.\<close>

theorem update_end_frame_out_of_range_witness:
  "\<not> jeq (fps once4) (Fin 0) \<and> p_playing once4 \<and> \<not> p_paused once4 \<and>
   p_frame (update dt_1_2 once4) = Fin 4 \<and> jlen (frames four_frames) = Fin 4"
  using update_end_frame_out_of_range
  by (simp add: once4_eq clip4_def jeq_Fin jlen_def)

subsection \<open>C6: the scenario of four frames at 2 frames per second\<close>

text \<open>
  C6.  A playing, not paused, looping clip with a sprite of 4 frames, \<open>fps = 2\<close>, time 0 and
  speed 1: \<open>_update(1.5)\<close> yields time 1.5 and frame 3 and fires nothing; then \<open>_update(1.0)\<close>
  wraps the time to 0.5, yields frame 1 and fires \<open>loop\<close> on the clip and on the component.
\<close>

theorem update_scenario_four_frames:
  "p_playing playing4 \<and> \<not> p_paused playing4 \<and> loop playing4 \<and> fps playing4 = Fin 2 \<and>
   p_sprite playing4 = Some four_frames \<and> length (frames four_frames) = 4 \<and>
   p_time playing4 = Fin 0 \<and> speed playing4 = Fin 1 \<and>
   p_time (update (Fin (3 / 2)) playing4) = Fin (3 / 2) \<and>
   p_frame (update (Fin (3 / 2)) playing4) = Fin 3 \<and>
   fired (update (Fin (3 / 2)) playing4) = fired playing4 \<and>
   p_time (update (Fin 1) (update (Fin (3 / 2)) playing4)) = Fin (1 / 2) \<and>
   p_frame (update (Fin 1) (update (Fin (3 / 2)) playing4)) = Fin 1 \<and>
   fired (update (Fin 1) (update (Fin (3 / 2)) playing4)) =
     fired playing4 @ [(OnClip, ''loop''), (OnComponent, ''loop'')]"
  by (simp add: eval_simps)

text \<open>The guards of \<open>_update\<close> are passed in both calls: the clip plays, is not paused and
  its \<open>fps\<close> is not 0.\<close>

theorem update_scenario_four_frames_witness:
  "\<not> jeq (fps playing4) (Fin 0) \<and> p_playing playing4 \<and> \<not> p_paused playing4 \<and>
   p_playing (update (Fin (3 / 2)) playing4) \<and> \<not> p_paused (update (Fin (3 / 2)) playing4) \<and>
   p_frame (update (Fin (3 / 2)) playing4) = Fin 3 \<and>
   p_frame (update (Fin 1) (update (Fin (3 / 2)) playing4)) = Fin 1"
  using update_scenario_four_frames
  by (simp add: eval_simps)

subsection \<open>C7: from frame to time and back\<close>

text \<open>
  C7.  The clip \<open>zero_fps4\<close> has a sprite of 4 frames and \<open>fps = 0\<close>, the default of the
  constructor.  Assigning \<open>frame = 1\<close> stores the frame 1 and, the duration being
  \<open>4 / Number.MIN_VALUE\<close>, the time \<open>Infinity\<close>.  Assigning the time read back to \<open>time\<close> does
  not yield the frame 1: the frame is \<open>floor(4 * Infinity / Infinity)\<close>, which is NaN, and NaN
  is what the renderer is given.  The \<open>sprite\<close> setter, which ends with
  \<open>this.time = this.time\<close>, does the same when a sprite is assigned after the frame.
\<close>

theorem frame_time_round_trip_fps_zero:
  "p_sprite zero_fps4 = Some four_frames \<and> length (frames four_frames) = 4 \<and>
   fps zero_fps4 = Fin 0 \<and>
   p_frame (set_frame (Fin 1) zero_fps4) = Fin 1 \<and>
   p_time (set_frame (Fin 1) zero_fps4) = PInf \<and>
   p_frame (set_time (p_time (set_frame (Fin 1) zero_fps4)) (set_frame (Fin 1) zero_fps4)) = NaN \<and>
   shown (set_time (p_time (set_frame (Fin 1) zero_fps4)) (set_frame (Fin 1) zero_fps4)) =
     [Fin 1, NaN] \<and>
   p_frame (set_sprite (Some loaded_frames) (set_frame (Fin 1) zero_fps4)) = NaN \<and>
   shown (set_sprite (Some loaded_frames) (set_frame (Fin 1) zero_fps4)) = [Fin 1, NaN]"
  unfolding zero_fps4_set_frame
  by (simp add: zero_fps4_set_time zero_fps4_set_sprite)
    (simp add: zero_fps4_def clip4_def four_frames_def)

text \<open>The guards of the setters are passed on this input: the clip is the current clip of
  its component and has a sprite, and its \<open>fps\<close> is falsy, so that \<open>Number.MIN_VALUE\<close> stands
  in for it; the frame stored is not a number.\<close>

theorem frame_time_round_trip_fps_zero_witness:
  "currentClip_is_this zero_fps4 \<and> \<not> truthy (fps zero_fps4) \<and>
   is_nan (p_frame (set_time (p_time (set_frame (Fin 1) zero_fps4)) (set_frame (Fin 1) zero_fps4)))"
proof -
  from frame_time_round_trip_fps_zero
  have a: "fps zero_fps4 = Fin 0"
    and b: "p_frame (set_time (p_time (set_frame (Fin 1) zero_fps4))
                (set_frame (Fin 1) zero_fps4)) = NaN"
    by blast+
  show ?thesis
    by (simp only: a b) (simp add: zero_fps4_current truthy_def)
qed

subsection \<open>C8: a clip without a sprite\<close>

text \<open>
  C8, as amended.  For every clip with no bound sprite: assigning \<open>frame = v\<close> stores \<open>v\<close> as
  the frame, whatever it is, and sets the time to 0; assigning \<open>time = v\<close> ends with frame 0
  and time 0; \<open>play()\<close> on a stopped clip sets \<open>playing\<close>, clears \<open>paused\<close> and leaves frame 0
  and time 0; \<open>pause()\<close> on a playing, not paused clip sets \<open>paused\<close>; \<open>resume()\<close> on a paused
  clip clears \<open>paused\<close>; \<open>stop()\<close> on a playing clip clears both flags and leaves frame 0 and
  time 0.
\<close>

theorem no_sprite_cases:
  assumes "p_sprite s = None"
  shows "p_frame (set_frame v s) = v \<and> p_time (set_frame v s) = Fin 0 \<and>
    p_frame (set_time v s) = Fin 0 \<and> p_time (set_time v s) = Fin 0 \<and>
    (\<not> p_playing s \<longrightarrow> p_playing (play s) \<and> \<not> p_paused (play s) \<and>
       p_frame (play s) = Fin 0 \<and> p_time (play s) = Fin 0) \<and>
    (p_playing s \<and> \<not> p_paused s \<longrightarrow> p_playing (pause s) \<and> p_paused (pause s)) \<and>
    (p_paused s \<longrightarrow> \<not> p_paused (resume s) \<and> p_playing (resume s) = p_playing s) \<and>
    (p_playing s \<longrightarrow> \<not> p_playing (stop s) \<and> \<not> p_paused (stop s) \<and>
       p_frame (stop s) = Fin 0 \<and> p_time (stop s) = Fin 0)"
  using assms
  by (simp add: set_frame_def set_time_def play_def pause_def resume_def stop_def fire_def
      component_fire_def showFrame_def Let_def)

theorem no_sprite_cases_witness:
  "p_sprite unbound4 = None \<and>
   p_frame (set_frame (Fin 5) unbound4) = Fin 5 \<and> p_time (set_frame (Fin 5) unbound4) = Fin 0 \<and>
   p_frame (set_time (Fin 5) unbound4) = Fin 0 \<and> p_time (set_time (Fin 5) unbound4) = Fin 0 \<and>
   (\<not> p_playing unbound4 \<and> p_playing (play unbound4) \<and> \<not> p_paused (play unbound4) \<and>
      p_frame (play unbound4) = Fin 0 \<and> p_time (play unbound4) = Fin 0) \<and>
   p_sprite (play unbound4) = None \<and>
   (p_playing (play unbound4) \<and> \<not> p_paused (play unbound4) \<and>
      p_playing (pause (play unbound4)) \<and> p_paused (pause (play unbound4))) \<and>
   p_sprite (pause (play unbound4)) = None \<and>
   (p_paused (pause (play unbound4)) \<and> \<not> p_paused (resume (pause (play unbound4)))) \<and>
   (p_playing (play unbound4) \<and> \<not> p_playing (stop (play unbound4)) \<and>
      \<not> p_paused (stop (play unbound4)) \<and> p_frame (stop (play unbound4)) = Fin 0 \<and>
      p_time (stop (play unbound4)) = Fin 0)"
proof -
  have h1: "p_sprite unbound4 = None" by (simp add: unbound4_eq)
  have h2: "p_sprite (play unbound4) = None" by (simp add: eval_simps)
  have h3: "p_sprite (pause (play unbound4)) = None" by (simp add: eval_simps)
  show ?thesis
    using h1 h2 h3 no_sprite_cases[OF h1, of "Fin 5"] no_sprite_cases[OF h2, of "Fin 5"]
      no_sprite_cases[OF h3, of "Fin 5"]
    by (simp add: eval_simps)
qed

text \<open>Without a sprite, assigning \<open>frame = 5\<close> leaves the frame 5, not 0.\<close>

theorem no_sprite_frame_counterexample:
  "p_sprite unbound4 = None \<and> p_frame (set_frame (Fin 5) unbound4) = Fin 5"
  by (simp add: eval_simps)

subsection \<open>C9: a rebind rejects the stale asset\<close>



subsection \<open>C10: the renderer is given the assigned frame\<close>

text \<open>
  C10.  For every clip that is its component's current clip and has a bound sprite,
  assigning \<open>frame = v\<close> calls \<open>_showFrame\<close> with the assigned value \<open>v\<close> itself, while the
  stored frame is \<open>v\<close> clamped to \<open>[0, frames.length]\<close>.
\<close>

theorem set_frame_shows_raw_value:
  assumes "currentClip_is_this s" "p_sprite s = Some sp"
  shows "shown (set_frame v s) = shown s @ [v] \<and>
         p_frame (set_frame v s) = clamp v (Fin 0) (jlen (frames sp))"
  using assms by (simp add: set_frame_def showFrame_def Let_def)

theorem set_frame_shows_raw_value_witness:
  "currentClip_is_this clip4 \<and> p_sprite clip4 = Some four_frames \<and>
   shown (set_frame (Fin 7) clip4) = [Fin 7] \<and> p_frame (set_frame (Fin 7) clip4) = Fin 4"
proof -
  have h: "currentClip_is_this clip4" "p_sprite clip4 = Some four_frames"
    by (simp_all add: clip4_def)
  show ?thesis
    using h set_frame_shows_raw_value[OF h, of "Fin 7"]
    by (simp add: clip4_def four_frames_def jlen_def fin_simps)
qed

end
